theory Spec2Isabelle
  imports Main "HOL-Library.Char_ord" "HOL-Library.List_Lexorder"
begin

section \<open>The built-in Date object, as far as game.js uses it\<close>

text \<open>
  game.js reads the clock with \<^verbatim>\<open>new Date()\<close>, prints calendar dates with
  \<^verbatim>\<open>toISOString().split('T')[0]\<close>, steps one day back with
  \<^verbatim>\<open>setDate(getDate() - 1)\<close> and parses stored date strings with
  \<^verbatim>\<open>new Date(string)\<close>. A time value is an integer number of milliseconds since
  1970-01-01T00:00:00Z; the definitions below follow the abstract operations of the
  ECMAScript specification (Day, DaysInYear, DayFromYear, YearFromTime, MonthFromTime,
  DateFromTime, MakeDay, LocalTime, UTC).
\<close>

definition msPerDay :: int where
  "msPerDay = 86400000"

definition Day :: "int \<Rightarrow> int" where
  "Day t = t div msPerDay"

definition InLeapYear :: "int \<Rightarrow> bool" where
  "InLeapYear y = (y mod 4 = 0 \<and> (y mod 100 \<noteq> 0 \<or> y mod 400 = 0))"

definition DaysInYear :: "int \<Rightarrow> int" where
  "DaysInYear y = (if InLeapYear y then 366 else 365)"

definition DayFromYear :: "int \<Rightarrow> int" where
  "DayFromYear y =
     365 * (y - 1970) + (y - 1969) div 4 - (y - 1901) div 100 + (y - 1601) div 400"

text \<open>
  YearFromTime is the largest year whose first day is not after the given day. The
  estimate from the mean year length of 146097/400 days is off by at most one year
  (lemma \<open>YearFromDay_bounds\<close> below).
\<close>

definition YearFromDay :: "int \<Rightarrow> int" where
  "YearFromDay d =
     (let y0 = 1970 + (400 * d) div 146097
      in if d < DayFromYear y0 then y0 - 1
         else if DayFromYear (y0 + 1) \<le> d then y0 + 1
         else y0)"

text \<open>The day within the year on which each of the twelve months starts.\<close>

definition month_starts :: "bool \<Rightarrow> int list" where
  "month_starts leap =
     (let l = (if leap then 1 else 0)
      in [0, 31, 59 + l, 90 + l, 120 + l, 151 + l, 181 + l, 212 + l, 243 + l, 273 + l,
          304 + l, 334 + l])"

definition month_lengths :: "bool \<Rightarrow> int list" where
  "month_lengths leap =
     [31, if leap then 29 else 28, 31, 30, 31, 30, 31, 31, 30, 31, 30, 31]"

text \<open>MonthFromTime, counted from 0 as in ECMAScript, and DateFromTime (1 to 31).\<close>

definition MonthFromDay :: "int \<Rightarrow> nat" where
  "MonthFromDay d =
     (let y = YearFromDay d
      in length (filter (\<lambda>s. s \<le> d - DayFromYear y) (month_starts (InLeapYear y))) - 1)"

definition DateFromDay :: "int \<Rightarrow> int" where
  "DateFromDay d =
     (let y = YearFromDay d
      in d - DayFromYear y - month_starts (InLeapYear y) ! MonthFromDay d + 1)"

text \<open>MakeDay for a month counted from 1 and a day of the month.\<close>

definition MakeDay :: "int \<Rightarrow> nat \<Rightarrow> int \<Rightarrow> int" where
  "MakeDay y m d = DayFromYear y + month_starts (InLeapYear y) ! (m - 1) + d - 1"

subsection \<open>Printing and parsing calendar dates\<close>

definition digit_char :: "nat \<Rightarrow> char" where
  "digit_char n = ''0123456789'' ! (n mod 10)"

definition pad2 :: "nat \<Rightarrow> string" where
  "pad2 n = [digit_char (n div 10), digit_char n]"

definition pad4 :: "nat \<Rightarrow> string" where
  "pad4 n = [digit_char (n div 1000), digit_char (n div 100), digit_char (n div 10),
             digit_char n]"

definition pad6 :: "nat \<Rightarrow> string" where
  "pad6 n = pad2 (n div 10000) @ pad4 n"

text \<open>
  The year of \<^verbatim>\<open>toISOString\<close>: four digits for the years 0 to 9999, otherwise a
  sign and six digits.
\<close>

definition year_string :: "int \<Rightarrow> string" where
  "year_string y =
     (if 0 \<le> y \<and> y \<le> 9999 then pad4 (nat y)
      else (if y < 0 then ''-'' else ''+'') @ pad6 (nat \<bar>y\<bar>))"

text \<open>\<^verbatim>\<open>new Date(t).toISOString().split('T')[0]\<close> for a time value \<open>t\<close>.\<close>

definition toISODate :: "int \<Rightarrow> string" where
  "toISODate t =
     (let d = Day t
      in year_string (YearFromDay d) @ ''-'' @ pad2 (MonthFromDay d + 1) @ ''-'' @
         pad2 (nat (DateFromDay d)))"

definition is_digit :: "char \<Rightarrow> bool" where
  "is_digit c = (CHR ''0'' \<le> c \<and> c \<le> CHR ''9'')"

definition digit_val :: "char \<Rightarrow> nat" where
  "digit_val c = of_char c - 48"

text \<open>
  \<^verbatim>\<open>new Date(s)\<close> for a string \<^verbatim>\<open>YYYY-MM-DD\<close> of ten characters that names a
  day of the calendar: the day number of that day (the time value is UTC midnight of it).
  These are the strings \<open>getTodayString\<close> writes into the storage for the years 0 to
  9999. Every other string is taken as an Invalid Date (\<open>None\<close>, the time value NaN);
  that leaves out the shorter forms \<^verbatim>\<open>YYYY\<close> and \<^verbatim>\<open>YYYY-MM\<close>, the date-time
  forms, and whatever else an engine accepts (some roll a day past the end of its month
  over into the next month). The lemmas below that parse a date speak about strings that
  \<open>parse_day\<close> accepts only.
\<close>

fun parse_day :: "string \<Rightarrow> int option" where
  "parse_day [y1, y2, y3, y4, s1, m1, m2, s2, d1, d2] =
     (if s1 = CHR ''-'' \<and> s2 = CHR ''-'' \<and> list_all is_digit [y1, y2, y3, y4, m1, m2, d1, d2]
      then
        (let y = int (1000 * digit_val y1 + 100 * digit_val y2 + 10 * digit_val y3 + digit_val y4);
             m = 10 * digit_val m1 + digit_val m2;
             d = int (10 * digit_val d1 + digit_val d2)
         in if 1 \<le> m \<and> m \<le> 12 \<and> 1 \<le> d \<and> d \<le> month_lengths (InLeapYear y) ! (m - 1)
            then Some (MakeDay y m d) else None)
      else None)"
| "parse_day s = None"

definition parse_date :: "string \<Rightarrow> int option" where
  "parse_date s = map_option (\<lambda>d. d * msPerDay) (parse_day s)"

subsection \<open>The clock and the local time zone\<close>

text \<open>
  The environment of a call: the time value \<^verbatim>\<open>new Date()\<close> yields, and the local
  time zone adjustment of the host (ECMAScript's LocalTZA: the offset of local time from
  UTC in milliseconds, asked either for a UTC time value or for a local one). The two
  clock reads of one \<open>calculateStreak\<close> call are taken at the same instant.
\<close>

record env =
  now :: int
  LocalTZA :: "int \<Rightarrow> bool \<Rightarrow> int"

definition LocalTime :: "env \<Rightarrow> int \<Rightarrow> int" where
  "LocalTime e t = t + LocalTZA e t True"

definition UTC :: "env \<Rightarrow> int \<Rightarrow> int" where
  "UTC e t = t - LocalTZA e t False"

definition getTodayString :: "env \<Rightarrow> string" where
  "getTodayString e = toISODate (now e)"

text \<open>
  \<^verbatim>\<open>yesterday.setDate(yesterday.getDate() - 1)\<close> works on local time: it keeps the
  local time within the day and moves the local day number one back (MakeDay of the
  local year, the local month and the local date minus one is the local day number minus
  one), then converts back to UTC. \<^verbatim>\<open>toISOString\<close> prints the UTC date of the result.
\<close>

definition getYesterdayString :: "env \<Rightarrow> string" where
  "getYesterdayString e = toISODate (UTC e (LocalTime e (now e) - msPerDay))"

section \<open>The streak\<close>

text \<open>
  \<^verbatim>\<open>Math.floor((current - next) / (1000 * 60 * 60 * 24))\<close> on two parsed dates; NaN
  (\<open>None\<close>) when one of them is an Invalid Date.
\<close>

definition diffDays :: "string \<Rightarrow> string \<Rightarrow> int option" where
  "diffDays current next =
     (case (parse_date current, parse_date next) of
        (Some c, Some n) \<Rightarrow> Some ((c - n) div (1000 * 60 * 60 * 24))
      | _ \<Rightarrow> None)"

text \<open>The loop of \<open>calculateStreak\<close> over the adjacent pairs of \<open>sortedDates\<close>.\<close>

fun streak_loop :: "string list \<Rightarrow> nat \<Rightarrow> nat" where
  "streak_loop (current # next # rest) streak =
     (if diffDays current next = Some 1 then streak_loop (next # rest) (streak + 1)
      else streak)"
| "streak_loop sortedDates streak = streak"

definition calculateStreak :: "env \<Rightarrow> string list \<Rightarrow> nat" where
  "calculateStreak e dates =
     (if length dates = 0 then 0
      else
        (let sortedDates = rev (sort dates);
             today = getTodayString e;
             yesterday = getYesterdayString e
         in if sortedDates ! 0 \<noteq> today \<and> sortedDates ! 0 \<noteq> yesterday then 0
            else streak_loop sortedDates 1))"

section \<open>The check-in ledger\<close>

text \<open>
  Strings are lists of code units below 256; \<^verbatim>\<open>toLowerCase\<close> maps the capital
  letters among them (A to Z, and the capital letters of the Latin-1 block: 192 to 222
  except the multiplication sign 215) to the code unit 32 above.
\<close>

definition is_upper :: "char \<Rightarrow> bool" where
  "is_upper c =
     (let n = (of_char c :: nat)
      in (65 \<le> n \<and> n \<le> 90) \<or> (192 \<le> n \<and> n \<le> 222 \<and> n \<noteq> 215))"

definition lower_char :: "char \<Rightarrow> char" where
  "lower_char c = (if is_upper c then char_of ((of_char c :: nat) + 32) else c)"

definition toLowerCase :: "string \<Rightarrow> string" where
  "toLowerCase s = map lower_char s"

text \<open>What a call can throw.\<close>

datatype js_exn = SyntaxError | TypeError | Error string

text \<open>The record kept per wallet (the object literal of \<open>getUserData\<close>).\<close>

record userData =
  dates :: "string list"
  streak :: nat
  total' :: nat
  lastDate :: "string option"
  signatures :: "string \<rightharpoonup> string"

definition emptyRecord :: userData where
  "emptyRecord = \<lparr>dates = [], streak = 0, total' = 0, lastDate = None, signatures = Map.empty\<rparr>"

text \<open>
  The objects \<^verbatim>\<open>JSON.parse\<close> builds and the object literals of game.js are plain
  objects: a map of own properties with \<^verbatim>\<open>Object.prototype\<close> behind it. Reading
  \<^verbatim>\<open>obj[k]\<close> gives the own property when there is one, otherwise the member of
  \<^verbatim>\<open>Object.prototype\<close> of that name when there is one (for \<^verbatim>\<open>__proto__\<close> the
  prototype itself, for the other names a function), otherwise \<^verbatim>\<open>undefined\<close>.
  Every inherited member is truthy.
\<close>

definition Object_prototype_names :: "string list" where
  "Object_prototype_names =
     [''constructor'', ''__proto__'', ''__defineGetter__'', ''__defineSetter__'',
      ''__lookupGetter__'', ''__lookupSetter__'', ''hasOwnProperty'', ''isPrototypeOf'',
      ''propertyIsEnumerable'', ''toLocaleString'', ''toString'', ''valueOf'']"

datatype 'a property = Own 'a | Inherited string | Undefined

definition get_property :: "(string \<rightharpoonup> 'a) \<Rightarrow> string \<Rightarrow> 'a property" where
  "get_property obj k =
     (case obj k of
        Some v \<Rightarrow> Own v
      | None \<Rightarrow> if k \<in> set Object_prototype_names then Inherited k else Undefined)"

text \<open>
  The assignment \<^verbatim>\<open>obj[k] = v\<close> of a string \<open>v\<close> writes the own property \<open>k\<close>,
  except for the name \<^verbatim>\<open>__proto__\<close> on an object without an own property of that
  name: there it calls the setter of \<^verbatim>\<open>Object.prototype\<close>, which ignores a value
  that is not an object, and nothing is stored.
\<close>

definition assign_string :: "(string \<rightharpoonup> string) \<Rightarrow> string \<Rightarrow> string \<Rightarrow> (string \<rightharpoonup> string)" where
  "assign_string obj k v = (if k = ''__proto__'' \<and> obj k = None then obj else obj(k \<mapsto> v))"

text \<open>
  The item stored in \<^verbatim>\<open>localStorage\<close> under \<^verbatim>\<open>STORAGE_KEY\<close>. A text that
  \<^verbatim>\<open>JSON.parse\<close> accepts is given by the value it parses to, and
  \<^verbatim>\<open>JSON.stringify\<close> writes a value as such a text (both keep exactly the own
  properties). The values covered are \<^verbatim>\<open>null\<close> and an object whose own properties
  are records.
\<close>

datatype json = Null | Object "string \<rightharpoonup> userData"

datatype storage =
    Absent        \<comment> \<open>\<^verbatim>\<open>getItem\<close> returns \<^verbatim>\<open>null\<close>\<close>
  | Empty         \<comment> \<open>the empty string\<close>
  | Malformed     \<comment> \<open>a text that \<^verbatim>\<open>JSON.parse\<close> rejects\<close>
  | Json json     \<comment> \<open>a text that \<^verbatim>\<open>JSON.parse\<close> accepts\<close>

text \<open>\<^verbatim>\<open>JSON.parse(localStorage.getItem(STORAGE_KEY) || '{}')\<close>\<close>

definition parse_storage :: "storage \<Rightarrow> js_exn + json" where
  "parse_storage st =
     (case st of
        Absent \<Rightarrow> Inr (Object Map.empty)
      | Empty \<Rightarrow> Inr (Object Map.empty)
      | Malformed \<Rightarrow> Inl SyntaxError
      | Json v \<Rightarrow> Inr v)"

text \<open>
  What \<open>getUserData\<close> returns: a record (a stored one or the default one), or, for a
  key that names a member of \<^verbatim>\<open>Object.prototype\<close> and is not an own property of
  the stored object, that member (the function \<^verbatim>\<open>Object\<close> for
  \<^verbatim>\<open>constructor\<close>, \<^verbatim>\<open>Object.prototype\<close> for \<^verbatim>\<open>__proto__\<close>), which is
  truthy and so is returned in place of the default.
\<close>

datatype user_value = Record userData | Prototype_member string

definition getUserData :: "storage \<Rightarrow> string \<Rightarrow> js_exn + user_value" where
  "getUserData st wallet =
     (case parse_storage st of
        Inl x \<Rightarrow> Inl x
      | Inr Null \<Rightarrow> Inl TypeError
      | Inr (Object allData) \<Rightarrow>
          Inr (case get_property allData (toLowerCase wallet) of
                 Own r \<Rightarrow> Record r
               | Inherited k \<Rightarrow> Prototype_member k
               | Undefined \<Rightarrow> Record emptyRecord))"

text \<open>
  The body of \<open>saveCheckIn\<close> from the comment \<^verbatim>\<open>// Add date\<close> to the assignment of
  \<^verbatim>\<open>lastDate\<close>, on the record \<^verbatim>\<open>userData\<close>; the environment is the one at the
  time of the call (\<open>calculateStreak\<close> reads the clock).
\<close>

definition addCheckIn :: "env \<Rightarrow> userData \<Rightarrow> string \<Rightarrow> string \<Rightarrow> userData" where
  "addCheckIn e u0 date signature =
     (let u1 = (if date \<in> set (dates u0) then u0
                else u0\<lparr>dates := sort (dates u0 @ [date])\<rparr>);
          u2 = u1\<lparr>signatures := assign_string (signatures u1) date signature\<rparr>;
          u3 = u2\<lparr>total' := length (dates u2)\<rparr>;
          u4 = u3\<lparr>streak := calculateStreak e (dates u3)\<rparr>
      in u4\<lparr>lastDate := Some date\<rparr>)"

text \<open>
  \<open>saveCheckIn\<close> returns the storage after \<^verbatim>\<open>setItem\<close>. When the lookup of the
  wallet key gives an inherited member, \<^verbatim>\<open>userData.dates\<close> is \<^verbatim>\<open>undefined\<close>
  and \<^verbatim>\<open>userData.dates.includes\<close> throws a TypeError before anything is written.
  In the other two cases the key is an own property or no name of
  \<^verbatim>\<open>Object.prototype\<close>, so \<^verbatim>\<open>allData[walletKey] = userData\<close> writes the own
  property.
\<close>

definition saveCheckIn :: "env \<Rightarrow> storage \<Rightarrow> string \<Rightarrow> string \<Rightarrow> string \<Rightarrow> js_exn + storage" where
  "saveCheckIn e st wallet date signature =
     (case parse_storage st of
        Inl x \<Rightarrow> Inl x
      | Inr Null \<Rightarrow> Inl TypeError
      | Inr (Object allData) \<Rightarrow>
          (let walletKey = toLowerCase wallet
           in case get_property allData walletKey of
                Own r \<Rightarrow>
                  Inr (Json (Object (allData(walletKey \<mapsto> addCheckIn e r date signature))))
              | Inherited k \<Rightarrow> Inl TypeError
              | Undefined \<Rightarrow>
                  Inr (Json (Object
                    (allData(walletKey \<mapsto> addCheckIn e emptyRecord date signature))))))"

text \<open>
  \<open>handleCheckIn\<close>, with the wallet provider's part as an input: no provider at all,
  an exception while the provider is resolved or asked to sign (a rejected request), or
  the signature \<^verbatim>\<open>personal_sign\<close> returns (the empty string is falsy). \<open>e\<close> is the
  environment when the handler starts, \<open>e'\<close> the one when the signature has arrived and
  \<open>saveCheckIn\<close> runs. The result is what the user is told and the storage afterwards.
  The first \<open>getUserData\<close> call and the test \<^verbatim>\<open>userData.dates.includes(today)\<close> are
  outside the \<^verbatim>\<open>try\<close> block: an exception of the call propagates, and so does the
  TypeError of the test when the call returned an inherited member.
\<close>

datatype signing = No_provider | Signing_throws js_exn | Signed string

datatype notice =
    Silent            \<comment> \<open>no wallet connected: plain return\<close>
  | Alert_already     \<comment> \<open>\<^verbatim>\<open>alert('You have already checked in today!')\<close>\<close>
  | Alert_failed js_exn  \<comment> \<open>\<^verbatim>\<open>alert('Check-in failed: ' + ...)\<close>\<close>
  | Saved             \<comment> \<open>the check-in was saved and the dashboard updated\<close>

definition handleCheckIn ::
  "env \<Rightarrow> env \<Rightarrow> string option \<Rightarrow> signing \<Rightarrow> storage \<Rightarrow> js_exn + notice \<times> storage" where
  "handleCheckIn e e' currentWallet sg st =
     (case currentWallet of
        None \<Rightarrow> Inr (Silent, st)
      | Some w \<Rightarrow>
          if w = [] then Inr (Silent, st)
          else
            (let today = getTodayString e
             in case getUserData st w of
                  Inl x \<Rightarrow> Inl x
                | Inr (Prototype_member k) \<Rightarrow> Inl TypeError
                | Inr (Record u) \<Rightarrow>
                    if today \<in> set (dates u) then Inr (Alert_already, st)
                    else
                      (case sg of
                         No_provider \<Rightarrow>
                           Inr (Alert_failed (Error ''No wallet provider available''), st)
                       | Signing_throws x \<Rightarrow> Inr (Alert_failed x, st)
                       | Signed s \<Rightarrow>
                           if s = [] then Inr (Alert_failed (Error ''No signature received''), st)
                           else
                             (case saveCheckIn e' st w today s of
                                Inl x \<Rightarrow> Inr (Alert_failed x, st)
                              | Inr st' \<Rightarrow> Inr (Saved, st')))))"

section \<open>Environment and provider resolution\<close>

text \<open>
  \<open>detectFarcasterFrame\<close> of game.js. Its inputs are the outcomes of the two things it
  evaluates inside \<^verbatim>\<open>try\<close>: the comparison \<^verbatim>\<open>window.self !== window.top\<close>
  and the names of the query parameters of the page; each either throws or yields a value.
  \<open>True\<close> is the embedded frame, \<open>False\<close> the standalone page.
\<close>

definition detectFarcasterFrame :: "js_exn + bool \<Rightarrow> js_exn + string list \<Rightarrow> bool" where
  "detectFarcasterFrame self_is_not_top params =
     (case self_is_not_top of
        Inl x \<Rightarrow> True
      | Inr True \<Rightarrow> True
      | Inr False \<Rightarrow>
          (case params of
             Inl x \<Rightarrow> True
           | Inr names \<Rightarrow> if ''fc_frame'' \<in> set names \<or> ''fid'' \<in> set names then True else False))"

text \<open>
  \<open>detectMiniApp\<close> of the other revision: the SDK that \<open>loadFarcasterSdk\<close> returns
  (\<open>None\<close> for \<^verbatim>\<open>null\<close>), whose \<^verbatim>\<open>isInMiniApp\<close> is absent or a query that
  answers within the timeout, does not answer, or rejects.
\<close>

datatype query = Answers bool | No_answer | Rejects

record miniapp_sdk =
  isInMiniApp :: "query option"

definition detectMiniApp :: "miniapp_sdk option \<Rightarrow> js_exn + bool \<Rightarrow> bool" where
  "detectMiniApp loaded self_is_not_top =
     (let fallback = (case self_is_not_top of Inl x \<Rightarrow> True | Inr b \<Rightarrow> b)
      in case loaded of
           None \<Rightarrow> fallback
         | Some sdk \<Rightarrow>
             (case isInMiniApp sdk of
                None \<Rightarrow> fallback
              | Some (Answers b) \<Rightarrow> b
              | Some No_answer \<Rightarrow> fallback
              | Some Rejects \<Rightarrow> fallback))"

text \<open>
  The SDK of game.js as \<open>getFarcasterProvider\<close> reads it: \<^verbatim>\<open>sdk.wallet\<close> and
  \<^verbatim>\<open>sdk.wallet.ethProvider\<close>, each possibly missing. \<open>loaded\<close> is the outcome of
  \<^verbatim>\<open>await getLoadedSdk()\<close>: an exception, \<^verbatim>\<open>null\<close> or the SDK.
\<close>

record 'p wallet_api =
  ethProvider :: "'p option"

record 'p frame_sdk =
  wallet :: "'p wallet_api option"

definition getFarcasterProvider :: "bool \<Rightarrow> js_exn + 'p frame_sdk option \<Rightarrow> 'p option" where
  "getFarcasterProvider isInFarcasterFrame loaded =
     (if \<not> isInFarcasterFrame then None
      else
        (case loaded of
           Inl x \<Rightarrow> None
         | Inr None \<Rightarrow> None
         | Inr (Some sdk) \<Rightarrow>
             (case wallet sdk of
                None \<Rightarrow> None
              | Some w \<Rightarrow> (case ethProvider w of Some p \<Rightarrow> Some p | None \<Rightarrow> None))))"

text \<open>\<open>getProvider\<close>; \<open>ethereum\<close> is \<^verbatim>\<open>window.ethereum\<close>.\<close>

definition getProvider ::
  "bool \<Rightarrow> 'p option \<Rightarrow> js_exn + 'p frame_sdk option \<Rightarrow> js_exn + 'p" where
  "getProvider isInFarcasterFrame ethereum loaded =
     (if \<not> isInFarcasterFrame then
        (case ethereum of
           Some p \<Rightarrow> Inr p
         | None \<Rightarrow> Inl (Error ''Please install MetaMask or Rabby wallet.''))
      else
        (case getFarcasterProvider isInFarcasterFrame loaded of
           Some p \<Rightarrow> Inr p
         | None \<Rightarrow>
             (case ethereum of
                Some p \<Rightarrow> Inr p
              | None \<Rightarrow> Inl (Error ''No wallet found. Please try again in Warpcast.''))))"

section \<open>Notions the properties are stated with\<close>

text \<open>
  The invariant of a record: the total is the number of dates, the dates are distinct
  and ascending (in the order of \<^verbatim>\<open>sort()\<close>, which compares strings by code units),
  and the dates that carry a signature are exactly the dates of the record.
\<close>

definition record_inv :: "userData \<Rightarrow> bool" where
  "record_inv u =
     (total' u = length (dates u) \<and> distinct (dates u) \<and> sorted (dates u) \<and>
      dom (signatures u) = set (dates u))"

text \<open>
  The invariant of the storage: it parses to an object, and every record in it satisfies
  the invariant of a record.
\<close>

definition storage_inv :: "storage \<Rightarrow> bool" where
  "storage_inv st =
     (\<exists>allData. parse_storage st = Inr (Object allData) \<and> (\<forall>r\<in>ran allData. record_inv r))"

text \<open>
  A run of \<open>saveCheckIn\<close> calls, each with its environment, wallet, date and signature,
  and a run of \<open>handleCheckIn\<close> calls, each with its two environments, the connected
  wallet and the outcome of the signing. A call that throws has written nothing, and the
  run goes on from the storage as it was.
\<close>

fun commits :: "(env \<times> string \<times> string \<times> string) list \<Rightarrow> storage \<Rightarrow> storage" where
  "commits [] st = st"
| "commits ((e, w, d, s) # cs) st =
     (case saveCheckIn e st w d s of Inl x \<Rightarrow> commits cs st | Inr st' \<Rightarrow> commits cs st')"

fun checkins :: "(env \<times> env \<times> string option \<times> signing) list \<Rightarrow> storage \<Rightarrow> storage" where
  "checkins [] st = st"
| "checkins ((e, e', cw, sg) # hs) st =
     (case handleCheckIn e e' cw sg st of
        Inl x \<Rightarrow> checkins hs st
      | Inr (n, st') \<Rightarrow> checkins hs st')"

text \<open>Two strings differ only in letter case.\<close>

definition same_letter :: "char \<Rightarrow> char \<Rightarrow> bool" where
  "same_letter a b =
     (a = b \<or> (is_upper a \<and> b = lower_char a) \<or> (is_upper b \<and> a = lower_char b))"

definition differ_only_in_case :: "string \<Rightarrow> string \<Rightarrow> bool" where
  "differ_only_in_case v w = list_all2 same_letter v w"

text \<open>The day number of a calendar-date string (0 for any other string).\<close>

definition day_number :: "string \<Rightarrow> int" where
  "day_number s = (case parse_day s of Some d \<Rightarrow> d | None \<Rightarrow> 0)"

text \<open>The environment of a host on UTC at the given time value.\<close>

definition utc_at :: "int \<Rightarrow> env" where
  "utc_at t = \<lparr>now = t, LocalTZA = (\<lambda>t isUTC. 0)\<rparr>"

text \<open>
  The local time zone adjustment of New York around the end of daylight saving time on
  Sunday 2026-11-01: four hours behind UTC until 06:00 UTC of that day (time value
  1793512800000), five hours behind from then on. Asked for a local time value, the
  switch is at 02:00 local time of that day (1793498400000, a local time of the repeated
  hour counting as before the switch).
\<close>

definition new_york_2026 :: "int \<Rightarrow> bool \<Rightarrow> int" where
  "new_york_2026 t isUTC =
     (if isUTC then (if t < 1793512800000 then - 14400000 else - 18000000)
      else (if t < 1793498400000 then - 14400000 else - 18000000))"

text \<open>
  A host in New York at 2026-11-02T00:30:00Z, which is 19:30 local time on 2026-11-01.
\<close>

definition new_york_evening :: env where
  "new_york_evening = \<lparr>now = 1793579400000, LocalTZA = new_york_2026\<rparr>"

text \<open>
  The storage after one check-in of the wallet \<^verbatim>\<open>0xabc\<close> on 1970-01-02, and the
  record in it.
\<close>

definition one_checkin_record :: userData where
  "one_checkin_record =
     \<lparr>dates = [''1970-01-02''], streak = 1, total' = 1, lastDate = Some ''1970-01-02'',
      signatures = [''1970-01-02'' \<mapsto> ''0x01'']\<rparr>"

definition one_checkin_storage :: storage where
  "one_checkin_storage = Json (Object [''0xabc'' \<mapsto> one_checkin_record])"

section \<open>Properties\<close>

subsection \<open>The calendar\<close>

text \<open>
  \<open>YearFromDay\<close> is ECMAScript's YearFromTime: the year it returns starts on or before
  the day, and the next year starts after it.
\<close>

lemma div_bounds:
  fixes a :: int
  assumes "0 < n"
  shows "n * (a div n) \<le> a \<and> a < n * (a div n) + n"
proof -
  have "a = n * (a div n) + a mod n" by simp
  moreover have "0 \<le> a mod n" "a mod n < n" using assms by simp_all
  ultimately show ?thesis by linarith
qed

lemma DayFromYear_estimate:
  "146097 * (y - 1970) - 506 \<le> 400 * DayFromYear y
   \<and> 400 * DayFromYear y \<le> 146097 * (y - 1970) + 589"
proof -
  have "146097 * (y - 1970) - 506 \<le> 400 * (365 * (y - 1970) + a - b + c)
        \<and> 400 * (365 * (y - 1970) + a - b + c) \<le> 146097 * (y - 1970) + 589"
    if "4 * a \<le> y - 1969 \<and> y - 1969 < 4 * a + 4"
      and "100 * b \<le> y - 1901 \<and> y - 1901 < 100 * b + 100"
      and "400 * c \<le> y - 1601 \<and> y - 1601 < 400 * c + 400" for a b c :: int
    using that by (simp add: algebra_simps)
  from this [OF div_bounds div_bounds div_bounds] show ?thesis
    by (simp add: DayFromYear_def)
qed

lemma YearFromDay_bounds:
  "DayFromYear (YearFromDay d) \<le> d \<and> d < DayFromYear (YearFromDay d + 1)"
proof -
  define y0 where "y0 = 1970 + (400 * d) div 146097"
  have q: "146097 * (y0 - 1970) \<le> 400 * d \<and> 400 * d < 146097 * (y0 - 1970) + 146097"
    unfolding y0_def using div_bounds [of 146097 "400 * d"] by simp
  have "X \<le> d" if "400 * X \<le> 146097 * (y0 - 1 - 1970) + 589" for X
    using that q by (simp add: algebra_simps)
  then have a: "DayFromYear (y0 - 1) \<le> d"
    using DayFromYear_estimate [of "y0 - 1"] by blast
  have "d < X" if "146097 * (2 + y0 - 1970) - 506 \<le> 400 * X" for X
    using that q by (simp add: algebra_simps)
  then have b: "d < DayFromYear (2 + y0)"
    using DayFromYear_estimate [of "2 + y0"] by blast
  show ?thesis
    using a b by (simp add: YearFromDay_def Let_def y0_def [symmetric])
qed


lemma div_step:
  fixes n k :: int
  assumes "0 < k"
  shows "(n + 1) div k = n div k + (if (n + 1) mod k = 0 then 1 else 0)"
proof (cases "n mod k + 1 = k")
  case True
  have "n = k * (n div k) + n mod k"
    by simp
  with True have "n + 1 = k * (n div k) + k"
    by linarith
  then have e: "n + 1 = k * (n div k + 1) + 0"
    by (simp add: algebra_simps)
  have z: "(0::int) \<le> 0" by simp
  from int_div_pos_eq [OF e z assms] int_mod_pos_eq [OF e z assms] show ?thesis by simp
next
  case False
  have r: "0 \<le> n mod k + 1" "n mod k + 1 < k"
    using assms False pos_mod_bound [of k n] pos_mod_sign [of k n] by linarith+
  have e: "n + 1 = k * (n div k) + (n mod k + 1)"
    by simp
  have "0 \<le> n mod k"
    using assms by simp
  with int_div_pos_eq [OF e r] int_mod_pos_eq [OF e r] show ?thesis by simp
qed

lemma mod_shift:
  "((y::int) - 1968) mod 4 = 0 \<longleftrightarrow> y mod 4 = 0"
  "((y::int) - 1900) mod 100 = 0 \<longleftrightarrow> y mod 100 = 0"
  "((y::int) - 1600) mod 400 = 0 \<longleftrightarrow> y mod 400 = 0"
  by (simp_all add: mod_eq_0_iff_dvd dvd_diff_left_iff)

lemma mod_chain:
  "(y::int) mod 100 = 0 \<Longrightarrow> y mod 4 = 0"
  "(y::int) mod 400 = 0 \<Longrightarrow> y mod 100 = 0"
  by (auto simp: mod_eq_0_iff_dvd elim: dvd_trans [rotated])


lemma year_step:
  fixes y :: int
  shows "(y + 1 - 1969) div 4 = (y - 1969) div 4 + (if y mod 4 = 0 then 1 else 0)"
    and "(y + 1 - 1901) div 100 = (y - 1901) div 100 + (if y mod 100 = 0 then 1 else 0)"
    and "(y + 1 - 1601) div 400 = (y - 1601) div 400 + (if y mod 400 = 0 then 1 else 0)"
proof -
  have e: "y + 1 - 1969 = y - 1969 + 1" "y + 1 - 1901 = y - 1901 + 1"
    "y + 1 - 1601 = y - 1601 + 1"
    by simp_all
  have m: "y - 1969 + 1 = y - 1968" "y - 1901 + 1 = y - 1900" "y - 1601 + 1 = y - 1600"
    by simp_all
  have p: "(0::int) < 4" "(0::int) < 100" "(0::int) < 400"
    by simp_all
  show "(y + 1 - 1969) div 4 = (y - 1969) div 4 + (if y mod 4 = 0 then 1 else 0)"
    unfolding e(1) div_step [OF p(1)] unfolding m(1) mod_shift(1) ..
  show "(y + 1 - 1901) div 100 = (y - 1901) div 100 + (if y mod 100 = 0 then 1 else 0)"
    unfolding e(2) div_step [OF p(2)] unfolding m(2) mod_shift(2) ..
  show "(y + 1 - 1601) div 400 = (y - 1601) div 400 + (if y mod 400 = 0 then 1 else 0)"
    unfolding e(3) div_step [OF p(3)] unfolding m(3) mod_shift(3) ..
qed

lemma leap_days:
  fixes y :: int
  shows "365 + (if y mod 4 = 0 then 1 else 0) - (if y mod 100 = 0 then 1 else 0)
       + (if y mod 400 = 0 then 1 else 0) = DaysInYear y"
proof -
  consider (a) "y mod 400 = 0" | (b) "y mod 400 \<noteq> 0" "y mod 100 = 0"
    | (c) "y mod 100 \<noteq> 0" "y mod 4 = 0" | (d) "y mod 4 \<noteq> 0"
    by blast
  then show ?thesis
  proof cases
    case a
    then have "y mod 100 = 0" "y mod 4 = 0"
      using mod_chain [of y] by auto
    with a show ?thesis by (simp only: DaysInYear_def InLeapYear_def) simp
  next
    case b
    then have "y mod 4 = 0"
      using mod_chain [of y] by auto
    with b show ?thesis by (simp only: DaysInYear_def InLeapYear_def) simp
  next
    case c
    then have "y mod 400 \<noteq> 0"
      using mod_chain [of y] by auto
    with c show ?thesis by (simp only: DaysInYear_def InLeapYear_def) simp
  next
    case d
    then have "y mod 100 \<noteq> 0" "y mod 400 \<noteq> 0"
      using mod_chain [of y] by auto
    with d show ?thesis by (simp only: DaysInYear_def InLeapYear_def) simp
  qed
qed

lemma DayFromYear_Suc: "DayFromYear (y + 1) = DayFromYear y + DaysInYear y"
proof -
  have k: "365 * (y + 1 - 1970) + (A + a) - (B + b) + (C + c)
        = 365 * (y - 1970) + A - B + C + (365 + a - b + c)" for A B C a b c :: int
    by (simp add: algebra_simps)
  show ?thesis
    unfolding leap_days [symmetric] unfolding DayFromYear_def year_step by (rule k)
qed

lemma DayFromYear_mono_nat: "DayFromYear y \<le> DayFromYear (y + int k)"
proof (induction k)
  case 0
  then show ?case by simp
next
  case (Suc k)
  have "DayFromYear (y + int k) \<le> DayFromYear (y + int k + 1)"
    unfolding DayFromYear_Suc by (simp add: DaysInYear_def)
  moreover have "y + int (Suc k) = y + int k + 1"
    by simp
  ultimately show ?case using Suc by (simp only:) 
qed

lemma DayFromYear_mono: "y \<le> z \<Longrightarrow> DayFromYear y \<le> DayFromYear z"
  using DayFromYear_mono_nat [of y "nat (z - y)"] by simp


subsection \<open>Days of the calendar\<close>

lemma month_tables:
  "length (month_starts l) = 12" "length (month_lengths l) = 12"
  "sorted (month_starts l)"
  "map2 (+) (month_starts l) (month_lengths l)
     = tl (month_starts l) @ [if l then 366 else 365]"
  by (simp_all add: month_starts_def month_lengths_def)

lemma month_start_next:
  assumes "i < 12"
  shows "month_starts l ! i + month_lengths l ! i
         = (tl (month_starts l) @ [if l then 366 else 365]) ! i"
proof -
  have "map2 (+) (month_starts l) (month_lengths l) ! i
        = month_starts l ! i + month_lengths l ! i"
    using assms by (simp add: month_tables(1,2))
  then show ?thesis
    using month_tables(4) [of l] by simp
qed

lemma month_start_nonneg: "i < 12 \<Longrightarrow> 0 \<le> month_starts l ! i"
proof -
  assume "i < 12"
  then have "month_starts l ! 0 \<le> month_starts l ! i"
    using month_tables(3) [of l] by (simp add: sorted_iff_nth_mono month_tables(1))
  moreover have "month_starts l ! 0 = 0"
    by (simp add: month_starts_def)
  ultimately show ?thesis by simp
qed

lemma month_end_le_next:
  assumes "i < j" "j < 12"
  shows "month_starts l ! i + month_lengths l ! i \<le> month_starts l ! j"
proof -
  from assms have i: "i < 11" "Suc i \<le> j" by simp_all
  have "(tl (month_starts l) @ [if l then 366 else 365]) ! i = month_starts l ! Suc i"
    using i by (simp add: nth_append nth_tl month_tables(1))
  moreover have "month_starts l ! Suc i \<le> month_starts l ! j"
    using month_tables(3) [of l] i assms(2) by (simp add: sorted_iff_nth_mono month_tables(1))
  ultimately show ?thesis
    using month_start_next [of i l] assms by simp
qed

lemma month_end_le_year:
  assumes "i < 12"
  shows "month_starts (InLeapYear y) ! i + month_lengths (InLeapYear y) ! i \<le> DaysInYear y"
proof (cases "i = 11")
  case True
  then show ?thesis
    by (simp add: month_starts_def month_lengths_def DaysInYear_def)
next
  case False
  with assms have "i < 11" by simp
  then have "(tl (month_starts (InLeapYear y)) @ [if InLeapYear y then 366 else 365]) ! i
      = month_starts (InLeapYear y) ! Suc i"
    by (simp add: nth_append nth_tl month_tables(1))
  moreover have "month_starts (InLeapYear y) ! Suc i \<le> month_starts (InLeapYear y) ! 11"
    using month_tables(3) [of "InLeapYear y"] \<open>i < 11\<close>
    by (simp add: sorted_iff_nth_mono month_tables(1))
  moreover have "month_starts (InLeapYear y) ! 11 \<le> DaysInYear y"
    by (simp add: month_starts_def DaysInYear_def)
  ultimately show ?thesis
    using month_start_next [OF assms, of "InLeapYear y"] by simp
qed


text \<open>A valid calendar date: month 1 to 12 and a day of that month.\<close>

lemma MakeDay_within_year:
  assumes "1 \<le> m" "m \<le> 12" "1 \<le> d" "d \<le> month_lengths (InLeapYear y) ! (m - 1)"
  shows "DayFromYear y \<le> MakeDay y m d" "MakeDay y m d < DayFromYear (y + 1)"
proof -
  from assms have i: "m - 1 < 12" by simp
  show "DayFromYear y \<le> MakeDay y m d"
    using month_start_nonneg [OF i, of "InLeapYear y"] assms(3) by (simp add: MakeDay_def)
  show "MakeDay y m d < DayFromYear (y + 1)"
    using month_end_le_year [OF i, of y] assms(4) by (simp add: MakeDay_def DayFromYear_Suc)
qed

lemma MakeDay_less:
  assumes "1 \<le> m" "m \<le> 12" "1 \<le> d" "d \<le> month_lengths (InLeapYear y) ! (m - 1)"
      and "1 \<le> m'" "m' \<le> 12" "1 \<le> d'" "d' \<le> month_lengths (InLeapYear y') ! (m' - 1)"
      and "y < y' \<or> (y = y' \<and> (m < m' \<or> (m = m' \<and> d < d')))"
  shows "MakeDay y m d < MakeDay y' m' d'"
proof -
  consider (year) "y < y'" | (month) "y = y'" "m < m'" | (day) "y = y'" "m = m'" "d < d'"
    using assms(9) by blast
  then show ?thesis
  proof cases
    case year
    then have "DayFromYear (y + 1) \<le> DayFromYear y'"
      by (simp add: DayFromYear_mono)
    with MakeDay_within_year(2) [OF assms(1-4)] MakeDay_within_year(1) [OF assms(5-8)]
    show ?thesis by linarith
  next
    case month
    then have "m - 1 < m' - 1" "m' - 1 < 12"
      using assms(1,6) by simp_all
    from month_end_le_next [OF this, of "InLeapYear y"] assms(4,7) month(1)
    show ?thesis by (simp add: MakeDay_def)
  next
    case day
    then show ?thesis by (simp add: MakeDay_def)
  qed
qed


subsection \<open>Calendar-date strings\<close>

lemma digit_order:
  assumes "is_digit a" "is_digit b"
  shows "(a < b) = (digit_val a < digit_val b)" "(a = b) = (digit_val a = digit_val b)"
    "digit_val a \<le> 9"
proof -
  have z: "(of_char CHR ''0'' :: nat) = 48" "(of_char CHR ''9'' :: nat) = 57"
    by simp_all
  from assms have r: "48 \<le> (of_char a :: nat)" "(of_char a :: nat) \<le> 57"
    "48 \<le> (of_char b :: nat)" "(of_char b :: nat) \<le> 57"
    by (simp_all add: is_digit_def less_eq_char_def z)
  show "(a < b) = (digit_val a < digit_val b)"
    using r by (auto simp: less_char_def digit_val_def)
  have "((of_char a :: nat) = of_char b) = ((of_char a :: nat) - 48 = of_char b - 48)"
    using r by arith
  then show "(a = b) = (digit_val a = digit_val b)"
    unfolding digit_val_def by (simp only: of_char_eq_iff)
  show "digit_val a \<le> 9"
    using r by (simp add: digit_val_def)
qed

text \<open>The year, month and day a string of the shape \<^verbatim>\<open>YYYY-MM-DD\<close> names.\<close>

lemma parse_day_shape:
  assumes "parse_day s = Some x"
  shows "\<exists>y1 y2 y3 y4 m1 m2 d1 d2.
           s = [y1, y2, y3, y4, CHR ''-'', m1, m2, CHR ''-'', d1, d2]
           \<and> is_digit y1 \<and> is_digit y2 \<and> is_digit y3 \<and> is_digit y4
           \<and> is_digit m1 \<and> is_digit m2 \<and> is_digit d1 \<and> is_digit d2
           \<and> 1 \<le> 10 * digit_val m1 + digit_val m2 \<and> 10 * digit_val m1 + digit_val m2 \<le> 12
           \<and> 1 \<le> int (10 * digit_val d1 + digit_val d2)
           \<and> int (10 * digit_val d1 + digit_val d2)
               \<le> month_lengths (InLeapYear (int (1000 * digit_val y1 + 100 * digit_val y2
                     + 10 * digit_val y3 + digit_val y4))) ! (10 * digit_val m1 + digit_val m2 - 1)
           \<and> x = MakeDay (int (1000 * digit_val y1 + 100 * digit_val y2 + 10 * digit_val y3
                     + digit_val y4)) (10 * digit_val m1 + digit_val m2)
                   (int (10 * digit_val d1 + digit_val d2))"
  using assms by (cases s rule: parse_day.cases) (simp_all add: Let_def split: if_splits)


lemma lex_digits:
  fixes a1 a2 a3 a4 a5 a6 a7 a8 b1 b2 b3 b4 b5 b6 b7 b8 :: nat
  assumes "a2 \<le> 9" "a3 \<le> 9" "a4 \<le> 9" "a6 \<le> 9" "a8 \<le> 9"
      and "b2 \<le> 9" "b3 \<le> 9" "b4 \<le> 9" "b6 \<le> 9" "b8 \<le> 9"
      and "a1 < b1 \<or> a1 = b1 \<and> (a2 < b2 \<or> a2 = b2 \<and> (a3 < b3 \<or> a3 = b3 \<and> (a4 < b4 \<or> a4 = b4 \<and>
           (a5 < b5 \<or> a5 = b5 \<and> (a6 < b6 \<or> a6 = b6 \<and> (a7 < b7 \<or> a7 = b7 \<and> a8 < b8))))))"
  shows "1000 * a1 + 100 * a2 + 10 * a3 + a4 < 1000 * b1 + 100 * b2 + 10 * b3 + b4
         \<or> (1000 * a1 + 100 * a2 + 10 * a3 + a4 = 1000 * b1 + 100 * b2 + 10 * b3 + b4
             \<and> (10 * a5 + a6 < 10 * b5 + b6
                 \<or> (10 * a5 + a6 = 10 * b5 + b6 \<and> 10 * a7 + a8 < 10 * b7 + b8)))"
  using assms by arith


lemma parse_day_less:
  assumes "parse_day s = Some x" "parse_day t = Some y" "s < t"
  shows "x < y"
proof -
  from parse_day_shape [OF assms(1)] obtain a1 a2 a3 a4 a5 a6 a7 a8 where
    s: "s = [a1, a2, a3, a4, CHR ''-'', a5, a6, CHR ''-'', a7, a8]"
    and sd: "is_digit a1" "is_digit a2" "is_digit a3" "is_digit a4"
      "is_digit a5" "is_digit a6" "is_digit a7" "is_digit a8"
    and sm: "1 \<le> 10 * digit_val a5 + digit_val a6" "10 * digit_val a5 + digit_val a6 \<le> 12"
    and sdd: "1 \<le> int (10 * digit_val a7 + digit_val a8)"
      "int (10 * digit_val a7 + digit_val a8)
        \<le> month_lengths (InLeapYear (int (1000 * digit_val a1 + 100 * digit_val a2
              + 10 * digit_val a3 + digit_val a4))) ! (10 * digit_val a5 + digit_val a6 - 1)"
    and x: "x = MakeDay (int (1000 * digit_val a1 + 100 * digit_val a2 + 10 * digit_val a3
              + digit_val a4)) (10 * digit_val a5 + digit_val a6)
              (int (10 * digit_val a7 + digit_val a8))"
    by blast
  from parse_day_shape [OF assms(2)] obtain b1 b2 b3 b4 b5 b6 b7 b8 where
    t: "t = [b1, b2, b3, b4, CHR ''-'', b5, b6, CHR ''-'', b7, b8]"
    and td: "is_digit b1" "is_digit b2" "is_digit b3" "is_digit b4"
      "is_digit b5" "is_digit b6" "is_digit b7" "is_digit b8"
    and tm: "1 \<le> 10 * digit_val b5 + digit_val b6" "10 * digit_val b5 + digit_val b6 \<le> 12"
    and tdd: "1 \<le> int (10 * digit_val b7 + digit_val b8)"
      "int (10 * digit_val b7 + digit_val b8)
        \<le> month_lengths (InLeapYear (int (1000 * digit_val b1 + 100 * digit_val b2
              + 10 * digit_val b3 + digit_val b4))) ! (10 * digit_val b5 + digit_val b6 - 1)"
    and y: "y = MakeDay (int (1000 * digit_val b1 + 100 * digit_val b2 + 10 * digit_val b3
              + digit_val b4)) (10 * digit_val b5 + digit_val b6)
              (int (10 * digit_val b7 + digit_val b8))"
    by blast
  from assms(3) have "a1 < b1 \<or> a1 = b1 \<and> (a2 < b2 \<or> a2 = b2 \<and> (a3 < b3 \<or> a3 = b3 \<and>
      (a4 < b4 \<or> a4 = b4 \<and> (a5 < b5 \<or> a5 = b5 \<and> (a6 < b6 \<or> a6 = b6 \<and>
      (a7 < b7 \<or> a7 = b7 \<and> a8 < b8))))))"
    unfolding s t by simp
  then have l: "digit_val a1 < digit_val b1 \<or> digit_val a1 = digit_val b1 \<and>
      (digit_val a2 < digit_val b2 \<or> digit_val a2 = digit_val b2 \<and>
      (digit_val a3 < digit_val b3 \<or> digit_val a3 = digit_val b3 \<and>
      (digit_val a4 < digit_val b4 \<or> digit_val a4 = digit_val b4 \<and>
      (digit_val a5 < digit_val b5 \<or> digit_val a5 = digit_val b5 \<and>
      (digit_val a6 < digit_val b6 \<or> digit_val a6 = digit_val b6 \<and>
      (digit_val a7 < digit_val b7 \<or> digit_val a7 = digit_val b7 \<and>
       digit_val a8 < digit_val b8))))))"
    unfolding digit_order(1,2) [OF sd(1) td(1)] digit_order(1,2) [OF sd(2) td(2)]
      digit_order(1,2) [OF sd(3) td(3)] digit_order(1,2) [OF sd(4) td(4)]
      digit_order(1,2) [OF sd(5) td(5)] digit_order(1,2) [OF sd(6) td(6)]
      digit_order(1,2) [OF sd(7) td(7)] digit_order(1,2) [OF sd(8) td(8)] .
  have n: "digit_val a2 \<le> 9" "digit_val a3 \<le> 9" "digit_val a4 \<le> 9" "digit_val a6 \<le> 9"
    "digit_val a8 \<le> 9" "digit_val b2 \<le> 9" "digit_val b3 \<le> 9" "digit_val b4 \<le> 9"
    "digit_val b6 \<le> 9" "digit_val b8 \<le> 9"
    using sd td digit_order(3) by blast+
  from lex_digits [OF n l]
  have "int (1000 * digit_val a1 + 100 * digit_val a2 + 10 * digit_val a3 + digit_val a4)
          < int (1000 * digit_val b1 + 100 * digit_val b2 + 10 * digit_val b3 + digit_val b4)
        \<or> (int (1000 * digit_val a1 + 100 * digit_val a2 + 10 * digit_val a3 + digit_val a4)
          = int (1000 * digit_val b1 + 100 * digit_val b2 + 10 * digit_val b3 + digit_val b4)
           \<and> (10 * digit_val a5 + digit_val a6 < 10 * digit_val b5 + digit_val b6
               \<or> (10 * digit_val a5 + digit_val a6 = 10 * digit_val b5 + digit_val b6
                   \<and> int (10 * digit_val a7 + digit_val a8)
                       < int (10 * digit_val b7 + digit_val b8))))"
    by (simp only: of_nat_less_iff of_nat_eq_iff)
  from MakeDay_less [OF sm sdd tm tdd this] show ?thesis
    unfolding x y .
qed

lemma parse_day_order:
  assumes "parse_day s = Some x" "parse_day t = Some y"
  shows "(s < t) = (x < y)" "(s = t) = (x = y)" "(s \<le> t) = (x \<le> y)"
proof -
  have a: "s < t \<Longrightarrow> x < y" and b: "t < s \<Longrightarrow> y < x"
    using assms parse_day_less by blast+
  have c: "s = t \<Longrightarrow> x = y"
    using assms by simp
  show "(s < t) = (x < y)" using a b c by (metis less_asym' less_irrefl linorder_less_linear)
  show "(s = t) = (x = y)" using a b c by (metis less_irrefl linorder_less_linear)
  show "(s \<le> t) = (x \<le> y)" using a b c by (metis leD leI less_asym' order_le_less)
qed


subsection \<open>The streak loop\<close>

lemma diffDays_parsed:
  assumes "parse_day c = Some x" "parse_day n = Some y"
  shows "diffDays c n = Some (x - y)"
proof -
  have "x * 86400000 - y * 86400000 = (x - y) * 86400000"
    by (simp add: algebra_simps)
  then have "(x * 86400000 - y * 86400000) div 86400000 = x - y"
    by simp
  then show ?thesis
    using assms by (simp add: diffDays_def parse_date_def msPerDay_def)
qed

lemma streak_loop_add: "streak_loop S (k + j) = streak_loop S k + j"
  by (induction S k rule: streak_loop.induct) (auto simp: algebra_simps)

lemma streak_loop_run:
  fixes f :: "string \<Rightarrow> int"
  assumes "\<forall>s\<in>set (c # S). parse_day s = Some (f s)"
      and "sorted_wrt (\<lambda>a b. f b < f a) (c # S)"
  shows "(\<forall>i < streak_loop (c # S) 1. f c - int i \<in> f ` set (c # S))
         \<and> f c - int (streak_loop (c # S) 1) \<notin> f ` set (c # S)"
  using assms
proof (induction S arbitrary: c)
  case Nil
  then show ?case by simp
next
  case (Cons n S)
  from Cons.prems have p: "parse_day c = Some (f c)" "parse_day n = Some (f n)"
    and lt: "f n < f c" "\<forall>s\<in>set S. f s < f n"
    and rest: "\<forall>s\<in>set (n # S). parse_day s = Some (f s)"
      "sorted_wrt (\<lambda>a b. f b < f a) (n # S)"
    by auto
  note d = diffDays_parsed [OF p]
  show ?case
  proof (cases "f c - f n = 1")
    case True
    define L where "L = streak_loop (n # S) 1"
    from Cons.IH [OF rest] have ih: "\<forall>i<L. f n - int i \<in> f ` set (n # S)"
      "f n - int L \<notin> f ` set (n # S)"
      by (simp_all add: L_def)
    have "streak_loop (c # n # S) 1 = streak_loop (n # S) (1 + 1)"
      using d True by simp
    then have loop: "streak_loop (c # n # S) 1 = Suc L"
      unfolding streak_loop_add L_def by simp
    have "f c - int i \<in> f ` set (c # n # S)" if "i < Suc L" for i
    proof (cases i)
      case 0
      then show ?thesis by simp
    next
      case (Suc j)
      with that have "f n - int j \<in> f ` set (n # S)"
        using ih(1) by simp
      moreover have "f c - int i = f n - int j"
        using True Suc by simp
      ultimately show ?thesis by auto
    qed
    moreover have "f c - int (Suc L) \<notin> f ` set (c # n # S)"
    proof -
      have e: "f c - int (Suc L) = f n - int L"
        using True by simp
      have "f n - int L \<noteq> f c"
        using lt(1) by simp
      with ih(2) have "f n - int L \<notin> f ` set (c # n # S)"
        by simp
      then show ?thesis
        unfolding e .
    qed
    ultimately show ?thesis
      unfolding loop by blast
  next
    case False
    then have loop: "streak_loop (c # n # S) 1 = 1"
      using d by simp
    have below: "f s < f c - 1" if "s \<in> set (n # S)" for s
      using that lt False by auto
    have "f c - 1 \<notin> f ` set (c # n # S)"
    proof
      assume "f c - 1 \<in> f ` set (c # n # S)"
      then obtain s where s: "s \<in> set (c # n # S)" "f c - 1 = f s"
        by blast
      have "s \<noteq> c"
        using s(2) by auto
      with s(1) have "s \<in> set (n # S)"
        by simp
      from below [OF this] s(2) show False
        by simp
    qed
    then show ?thesis
      unfolding loop by simp
  qed
qed

text \<open>
  The function \<open>f\<close> gives the day number of each of the dates. For distinct calendar
  dates, \<open>sortedDates\<close> starts with the most recent one and descends in time.
\<close>

lemma most_recent_first:
  fixes f :: "string \<Rightarrow> int"
  assumes "distinct ds" and "\<forall>s\<in>set ds. parse_day s = Some (f s)"
      and "m \<in> set ds" and "\<forall>s\<in>set ds. f s \<le> f m"
  shows "\<exists>S'. rev (sort ds) = m # S' \<and> sorted_wrt (\<lambda>a b. f b < f a) (m # S')"
proof -
  define S where "S = rev (sort ds)"
  have set: "set S = set ds"
    by (simp add: S_def)
  have "sorted_wrt (<) (sort ds)"
    using assms(1) by (simp add: strict_sorted_iff)
  then have desc: "sorted_wrt (\<lambda>a b. b < a) S"
    by (simp add: S_def sorted_wrt_rev)
  have "sorted_wrt (\<lambda>a b. f b < f a) S"
  proof (rule sorted_wrt_mono_rel [OF _ desc])
    fix a b
    assume "a \<in> set S" "b \<in> set S" "b < a"
    then show "f b < f a"
      using assms(2) parse_day_order(1) [of b "f b" a "f a"] by (simp add: set)
  qed
  moreover from assms(3) obtain c S' where S: "S = c # S'"
    using set by (cases S) auto
  ultimately have sf: "sorted_wrt (\<lambda>a b. f b < f a) (c # S')"
    by simp
  have "m = c"
  proof (rule ccontr)
    assume "m \<noteq> c"
    then have "m \<in> set S'"
      using assms(3) set S by auto
    then have "f m < f c"
      using sf by auto
    moreover have "f c \<le> f m"
      using assms(4) set S by auto
    ultimately show False by simp
  qed
  with S sf show ?thesis
    by (simp add: S_def)
qed

text \<open>
  When the dates are distinct calendar dates and the most recent of them, \<open>m\<close>, is the
  string \<open>getTodayString\<close> or the string \<open>getYesterdayString\<close> returns,
  \<open>calculateStreak\<close> is the length of the run of consecutive days that ends at \<open>m\<close>: each
  of that many days back from \<open>m\<close> is among the dates, and the next day back is not.
\<close>

lemma calculateStreak_run:
  fixes f :: "string \<Rightarrow> int"
  assumes "distinct ds" and "\<forall>s\<in>set ds. parse_day s = Some (f s)"
      and "m \<in> set ds" and "\<forall>s\<in>set ds. f s \<le> f m"
      and "m = getTodayString e \<or> m = getYesterdayString e"
  shows "(\<forall>i < calculateStreak e ds. f m - int i \<in> f ` set ds)
         \<and> f m - int (calculateStreak e ds) \<notin> f ` set ds"
proof -
  from most_recent_first [OF assms(1-4)] obtain S' where
    S: "rev (sort ds) = m # S'" and sf: "sorted_wrt (\<lambda>a b. f b < f a) (m # S')"
    by blast
  have set: "set (m # S') = set ds"
    unfolding S [symmetric] by simp
  have parsed: "\<forall>s\<in>set (m # S'). parse_day s = Some (f s)"
    unfolding set using assms(2) .
  have "ds \<noteq> []"
    using assms(3) by auto
  then have "calculateStreak e ds = streak_loop (m # S') 1"
    using assms(5) by (auto simp: calculateStreak_def Let_def S)
  with streak_loop_run [OF parsed sf] show ?thesis
    unfolding set by simp
qed

text \<open>Otherwise the streak is 0.\<close>

lemma calculateStreak_zero:
  fixes f :: "string \<Rightarrow> int"
  assumes "distinct ds" and "\<forall>s\<in>set ds. parse_day s = Some (f s)"
      and "m \<in> set ds" and "\<forall>s\<in>set ds. f s \<le> f m"
      and "m \<noteq> getTodayString e" and "m \<noteq> getYesterdayString e"
  shows "calculateStreak e ds = 0"
proof -
  from most_recent_first [OF assms(1-4)] obtain S' where S: "rev (sort ds) = m # S'"
    by blast
  then show ?thesis
    using assms(5,6) by (simp add: calculateStreak_def Let_def)
qed

text \<open>
  In a time zone whose offset from UTC never changes, \<open>getYesterdayString\<close> is the UTC
  date 24 hours before now.
\<close>

lemma getYesterdayString_fixed_offset:
  assumes "\<And>t u. LocalTZA e t u = c"
  shows "getYesterdayString e = toISODate (now e - msPerDay)"
  by (simp add: getYesterdayString_def UTC_def LocalTime_def assms)

subsection \<open>Lower case\<close>

lemma lower_upper: "is_upper c \<Longrightarrow> \<not> is_upper (lower_char c)"
proof -
  assume u: "is_upper c"
  define n where "n = (of_char c :: nat)"
  from u have r: "(65 \<le> n \<and> n \<le> 90) \<or> (192 \<le> n \<and> n \<le> 222 \<and> n \<noteq> 215)"
    by (simp add: is_upper_def Let_def n_def)
  then have "n + 32 < 256" by arith
  then have "(of_char (char_of (n + 32)) :: nat) = n + 32"
    by simp
  with r u show ?thesis
    by (simp add: is_upper_def lower_char_def Let_def n_def [symmetric]) arith
qed

lemma lower_char_idem: "lower_char (lower_char c) = lower_char c"
  using lower_upper [of c] by (cases "is_upper c") (simp_all add: lower_char_def)

lemma same_letter_lower: "same_letter a b \<Longrightarrow> lower_char a = lower_char b"
  unfolding same_letter_def using lower_char_idem by metis

lemma differ_lower: "differ_only_in_case v w \<Longrightarrow> toLowerCase v = toLowerCase w"
  unfolding differ_only_in_case_def toLowerCase_def
  by (induction v w rule: list_all2_induct) (simp_all add: same_letter_lower)

subsection \<open>Properties of objects and of the stored record\<close>

lemma get_property_upd:
  "get_property (obj(k \<mapsto> v)) k = Own v"
  "k' \<noteq> k \<Longrightarrow> get_property (obj(k \<mapsto> v)) k' = get_property obj k'"
  by (simp_all add: get_property_def)

lemma get_property_cases:
  "k \<notin> set Object_prototype_names \<Longrightarrow>
     (\<exists>v. get_property obj k = Own v) \<or> get_property obj k = Undefined"
  by (simp add: get_property_def split: option.splits)

lemma get_property_Own: "get_property obj k = Own v \<Longrightarrow> obj k = Some v"
  by (simp add: get_property_def split: option.splits if_splits)

text \<open>The record \<open>addCheckIn\<close> gives.\<close>

lemma addCheckIn_fields:
  "dates (addCheckIn e u d s) = (if d \<in> set (dates u) then dates u else sort (dates u @ [d]))"
  "signatures (addCheckIn e u d s) = assign_string (signatures u) d s"
  "total' (addCheckIn e u d s) = length (dates (addCheckIn e u d s))"
  "streak (addCheckIn e u d s) = calculateStreak e (dates (addCheckIn e u d s))"
  "lastDate (addCheckIn e u d s) = Some d"
  by (simp_all add: addCheckIn_def Let_def)

lemma addCheckIn_date: "d \<in> set (dates (addCheckIn e u d s))"
  by (simp add: addCheckIn_fields)

lemma addCheckIn_signature:
  "d \<noteq> ''__proto__'' \<Longrightarrow> signatures (addCheckIn e u d s) d = Some s"
  by (simp add: addCheckIn_fields assign_string_def)

lemma addCheckIn_record_inv:
  assumes "record_inv u" "d \<noteq> ''__proto__''"
  shows "record_inv (addCheckIn e u d s)"
  using assms unfolding record_inv_def addCheckIn_fields
  by (auto simp: assign_string_def)

lemma emptyRecord_inv: "record_inv emptyRecord"
  by (simp add: record_inv_def emptyRecord_def)

text \<open>What a successful \<open>saveCheckIn\<close> has read and written.\<close>

lemma saveCheckIn_Inr:
  assumes "saveCheckIn e st w d s = Inr st'"
  shows "\<exists>allData u0. parse_storage st = Inr (Object allData)
           \<and> (get_property allData (toLowerCase w) = Own u0
               \<or> get_property allData (toLowerCase w) = Undefined \<and> u0 = emptyRecord)
           \<and> st' = Json (Object (allData(toLowerCase w \<mapsto> addCheckIn e u0 d s)))"
  using assms
  by (auto simp: saveCheckIn_def Let_def split: sum.splits json.splits property.splits)

lemma getUserData_parsed:
  "parse_storage st = Inr (Object allData) \<Longrightarrow>
   getUserData st w =
     Inr (case get_property allData (toLowerCase w) of
            Own r \<Rightarrow> Record r
          | Inherited k \<Rightarrow> Prototype_member k
          | Undefined \<Rightarrow> Record emptyRecord)"
  by (simp add: getUserData_def)

lemma getUserData_saved:
  "getUserData (Json (Object (allData(toLowerCase w \<mapsto> u)))) w = Inr (Record u)"
  by (simp add: getUserData_def parse_storage_def get_property_upd)

lemma getUserData_other:
  assumes "parse_storage st = Inr (Object allData)" "toLowerCase v \<noteq> toLowerCase w"
  shows "getUserData (Json (Object (allData(toLowerCase w \<mapsto> u)))) v = getUserData st v"
  using assms by (simp add: getUserData_def parse_storage_def get_property_upd)

text \<open>The date of the clock is never the string \<^verbatim>\<open>__proto__\<close>.\<close>

lemma toISODate_length: "length (toISODate t) = 10 \<or> length (toISODate t) = 13"
  by (simp add: toISODate_def Let_def year_string_def pad2_def pad4_def pad6_def)

lemma getTodayString_not_proto: "getTodayString e \<noteq> ''__proto__''"
proof
  assume "getTodayString e = ''__proto__''"
  then have "length (toISODate (now e)) = 9"
    by (simp add: getTodayString_def)
  with toISODate_length [of "now e"] show False
    by simp
qed

text \<open>Nor is a calendar-date string.\<close>

lemma calendar_date_not_proto:
  assumes "parse_day d = Some x"
  shows "d \<noteq> ''__proto__''"
proof -
  from parse_day_shape [OF assms] have "length d = 10"
    by auto
  then show ?thesis
    by auto
qed

text \<open>What \<open>handleCheckIn\<close> does to the storage.\<close>

lemma handleCheckIn_Saved:
  assumes "handleCheckIn e e' cw sg st = Inr (Saved, st')"
  shows "\<exists>w s. cw = Some w \<and> w \<noteq> [] \<and> sg = Signed s
           \<and> saveCheckIn e' st w (getTodayString e) s = Inr st'"
  using assms
  by (auto simp: handleCheckIn_def Let_def
      split: option.splits if_splits sum.splits user_value.splits signing.splits)

lemma handleCheckIn_not_Saved:
  assumes "handleCheckIn e e' cw sg st = Inr (n, st')" "n \<noteq> Saved"
  shows "st' = st"
  using assms
  by (auto simp: handleCheckIn_def Let_def
      split: option.splits if_splits sum.splits user_value.splits signing.splits)

text \<open>The invariant of the storage along a run.\<close>

lemma storage_inv_Absent: "storage_inv Absent"
  by (simp add: storage_inv_def parse_storage_def)

lemma saveCheckIn_storage_inv:
  assumes "storage_inv st" "d \<noteq> ''__proto__''" "saveCheckIn e st w d s = Inr st'"
  shows "storage_inv st'"
proof -
  from saveCheckIn_Inr [OF assms(3)] obtain allData u0 where
    p: "parse_storage st = Inr (Object allData)"
    and g: "get_property allData (toLowerCase w) = Own u0
            \<or> get_property allData (toLowerCase w) = Undefined \<and> u0 = emptyRecord"
    and st': "st' = Json (Object (allData(toLowerCase w \<mapsto> addCheckIn e u0 d s)))"
    by blast
  from assms(1) p have i: "\<forall>r\<in>ran allData. record_inv r"
    by (simp add: storage_inv_def)
  have "record_inv u0"
    using g i emptyRecord_inv get_property_Own [of allData "toLowerCase w" u0]
    by (auto simp: ran_def)
  then have "record_inv (addCheckIn e u0 d s)"
    using assms(2) by (rule addCheckIn_record_inv)
  moreover have "ran (allData(toLowerCase w \<mapsto> addCheckIn e u0 d s))
      \<subseteq> insert (addCheckIn e u0 d s) (ran allData)"
    by (auto simp: ran_def)
  ultimately have "\<forall>r\<in>ran (allData(toLowerCase w \<mapsto> addCheckIn e u0 d s)). record_inv r"
    using i by blast
  then show ?thesis
    unfolding st' by (simp add: storage_inv_def parse_storage_def)
qed

lemma commits_storage_inv:
  assumes "storage_inv st" "\<forall>(e, w, d, s)\<in>set cs. d \<noteq> ''__proto__''"
  shows "storage_inv (commits cs st)"
  using assms
proof (induction cs arbitrary: st)
  case Nil
  then show ?case by simp
next
  case (Cons c cs)
  obtain e w d s where c: "c = (e, w, d, s)"
    by (cases c) auto
  from Cons.prems(2) have d: "d \<noteq> ''__proto__''"
    and rest: "\<forall>(e, w, d, s)\<in>set cs. d \<noteq> ''__proto__''"
    by (simp_all add: c)
  show ?case
  proof (cases "saveCheckIn e st w d s")
    case (Inl x)
    with Cons.IH [OF Cons.prems(1) rest] show ?thesis
      by (simp add: c)
  next
    case (Inr st')
    from saveCheckIn_storage_inv [OF Cons.prems(1) d Inr] have "storage_inv st'" .
    from Cons.IH [OF this rest] Inr show ?thesis
      by (simp add: c)
  qed
qed

lemma handleCheckIn_storage_inv:
  assumes "storage_inv st" "handleCheckIn e e' cw sg st = Inr (n, st')"
  shows "storage_inv st'"
proof (cases "n = Saved")
  case True
  with handleCheckIn_Saved [of e e' cw sg st st'] assms(2)
  obtain w s where "saveCheckIn e' st w (getTodayString e) s = Inr st'"
    by blast
  from saveCheckIn_storage_inv [OF assms(1) getTodayString_not_proto this] show ?thesis .
next
  case False
  from handleCheckIn_not_Saved [OF assms(2) False] assms(1) show ?thesis
    by simp
qed

lemma checkins_storage_inv:
  assumes "storage_inv st"
  shows "storage_inv (checkins hs st)"
  using assms
proof (induction hs arbitrary: st)
  case Nil
  then show ?case by simp
next
  case (Cons h hs)
  obtain e e' cw sg where h: "h = (e, e', cw, sg)"
    by (cases h) auto
  show ?case
  proof (cases "handleCheckIn e e' cw sg st")
    case (Inl x)
    with Cons.IH [OF Cons.prems] show ?thesis
      by (simp add: h)
  next
    case (Inr r)
    obtain n st' where r: "r = (n, st')"
      by (cases r) auto
    from handleCheckIn_storage_inv [OF Cons.prems] Inr r have "storage_inv st'"
      by blast
    from Cons.IH [OF this] Inr r show ?thesis
      by (simp add: h)
  qed
qed

text \<open>
  What \<open>getUserData\<close> reads from a storage with the invariant: it does not throw, a
  record it returns satisfies the invariant of a record, and it returns a record for
  every wallet whose lowercase form is no name of \<^verbatim>\<open>Object.prototype\<close>.
\<close>

lemma storage_inv_read:
  assumes "storage_inv st"
  shows "\<exists>v. getUserData st w = Inr v \<and> (\<forall>u. v = Record u \<longrightarrow> record_inv u)
           \<and> (toLowerCase w \<notin> set Object_prototype_names \<longrightarrow> (\<exists>u. v = Record u))"
proof -
  from assms obtain allData where p: "parse_storage st = Inr (Object allData)"
    and i: "\<forall>r\<in>ran allData. record_inv r"
    by (auto simp: storage_inv_def)
  show ?thesis
  proof (cases "get_property allData (toLowerCase w)")
    case (Own r)
    then have "record_inv r"
      using i get_property_Own [OF Own] by (auto simp: ran_def)
    with Own show ?thesis
      by (simp add: getUserData_parsed [OF p])
  next
    case (Inherited k)
    then have "toLowerCase w \<in> set Object_prototype_names"
      using get_property_cases [of "toLowerCase w" allData] by auto
    with Inherited show ?thesis
      by (simp add: getUserData_parsed [OF p])
  next
    case Undefined
    then show ?thesis
      by (simp add: getUserData_parsed [OF p] emptyRecord_inv)
  qed
qed

subsection \<open>The streak on examples\<close>

lemma calculateStreak_empty: "calculateStreak e [] = 0"
  by (simp add: calculateStreak_def)

lemma today_day1: "getTodayString (utc_at 86400000) = ''1970-01-02''"
  by code_simp

lemma today_day3: "getTodayString (utc_at 259200000) = ''1970-01-04''"
  by code_simp

lemma parsed_example:
  "parse_day ''1970-01-04'' = Some 3" "parse_day ''1970-01-02'' = Some 1"
  "parse_day ''1970-01-01'' = Some 0"
  by code_simp+

lemma sorted_example:
  "rev (sort [''1970-01-01'', ''1970-01-02'', ''1970-01-04''])
     = [''1970-01-04'', ''1970-01-02'', ''1970-01-01'']"
  "rev (sort [''1970-01-01'', ''1970-01-02'']) = [''1970-01-02'', ''1970-01-01'']"
  "rev (sort [''1970-01-02'', ''1970-01-04'']) = [''1970-01-04'', ''1970-01-02'']"
  by code_simp+

text \<open>
  Check-ins on day 1 and day 2, read on day 2, give the streak 2; check-ins on day 1,
  day 2 and day 4, and check-ins on day 2 and day 4, read on day 4, give the streak 1.
\<close>

lemma streak_of_two:
  "calculateStreak (utc_at 86400000) [''1970-01-01'', ''1970-01-02''] = 2"
  by (simp add: calculateStreak_def Let_def sorted_example today_day1
      diffDays_parsed [OF parsed_example(2) parsed_example(3)])

lemma streak_after_gap:
  "calculateStreak (utc_at 259200000) [''1970-01-01'', ''1970-01-02'', ''1970-01-04''] = 1"
  "calculateStreak (utc_at 259200000) [''1970-01-02'', ''1970-01-04''] = 1"
  by (simp_all add: calculateStreak_def Let_def sorted_example today_day3
      diffDays_parsed [OF parsed_example(1) parsed_example(2)])

text \<open>\<open>calculateStreak_run\<close> at the first of these examples.\<close>

lemma calculateStreak_run_example:
  "day_number ''1970-01-04'' - int (calculateStreak (utc_at 259200000)
       [''1970-01-01'', ''1970-01-02'', ''1970-01-04''])
     \<notin> day_number ` set [''1970-01-01'', ''1970-01-02'', ''1970-01-04'']"
proof -
  have d: "day_number ''1970-01-04'' = 3" "day_number ''1970-01-02'' = 1"
    "day_number ''1970-01-01'' = 0"
    by (simp_all only: day_number_def parsed_example option.case)
  have "distinct [''1970-01-01'', ''1970-01-02'', ''1970-01-04'']"
    by simp
  moreover have "\<forall>s\<in>set [''1970-01-01'', ''1970-01-02'', ''1970-01-04''].
      parse_day s = Some (day_number s)"
    by (simp add: d parsed_example del: parse_day.simps)
  moreover have "''1970-01-04'' \<in> set [''1970-01-01'', ''1970-01-02'', ''1970-01-04'']"
    by simp
  moreover have "\<forall>s\<in>set [''1970-01-01'', ''1970-01-02'', ''1970-01-04''].
      day_number s \<le> day_number ''1970-01-04''"
    by (simp add: d)
  moreover have "''1970-01-04'' = getTodayString (utc_at 259200000)
      \<or> ''1970-01-04'' = getYesterdayString (utc_at 259200000)"
    by (simp add: today_day3)
  ultimately show ?thesis
    using calculateStreak_run [of "[''1970-01-01'', ''1970-01-02'', ''1970-01-04'']"
        day_number "''1970-01-04''" "utc_at 259200000"]
    by blast
qed

subsection \<open>The streak in a time zone with daylight saving\<close>

lemma today_new_york: "getTodayString new_york_evening = ''2026-11-02''"
  by code_simp

lemma yesterday_new_york: "getYesterdayString new_york_evening = ''2026-10-31''"
  by code_simp

lemma day_before_new_york: "toISODate (now new_york_evening - msPerDay) = ''2026-11-01''"
  by code_simp

lemma calculateStreak_single:
  "calculateStreak e [d] = (if d \<noteq> getTodayString e \<and> d \<noteq> getYesterdayString e then 0 else 1)"
  by (simp add: calculateStreak_def Let_def)

text \<open>
  C1 says that a run of check-ins whose most recent date is today or the day before
  today gives the length of the run. \<open>calculateStreak_run\<close> proves that with the string
  \<open>getYesterdayString\<close> returns in the place of the day before today.
  \<open>getYesterdayString\<close> steps one day back in local time and prints the UTC date, so it
  is the day before today where the offset of local time from UTC does not change
  (\<open>getYesterdayString_fixed_offset\<close>), and need not be where it does. In New York at
  2026-11-02T00:30:00Z, the evening after the clocks went back, today is 2026-11-02, the
  day before is 2026-11-01, and \<open>getYesterdayString\<close> returns 2026-10-31: for the single
  check-in of 2026-11-01, a run of length 1 that ends the day before today,
  \<open>calculateStreak\<close> returns 0.
\<close>

theorem streak_lost_in_new_york:
  "getTodayString new_york_evening = ''2026-11-02''
   \<and> toISODate (now new_york_evening - msPerDay) = ''2026-11-01''
   \<and> calculateStreak new_york_evening [''2026-11-01''] = 0"
  by (simp add: today_new_york yesterday_new_york day_before_new_york calculateStreak_single)

text \<open>
  C2 says that the streak is 0 when the most recent date is neither today nor the day
  before today. \<open>calculateStreak_zero\<close> proves that with the string \<open>getYesterdayString\<close>
  returns in the place of the day before today. On the same evening in New York the
  single check-in of 2026-10-31, two days before today, gives the streak 1.
\<close>

theorem streak_kept_in_new_york:
  "getTodayString new_york_evening = ''2026-11-02''
   \<and> toISODate (now new_york_evening - msPerDay) = ''2026-11-01''
   \<and> calculateStreak new_york_evening [''2026-10-31''] = 1"
  by (simp add: today_new_york yesterday_new_york day_before_new_york calculateStreak_single)

subsection \<open>The streak that is read\<close>

lemma today_day10: "getTodayString (utc_at 864000000) = ''1970-01-11''"
  by code_simp

lemma yesterday_day10: "getYesterdayString (utc_at 864000000) = ''1970-01-10''"
  by code_simp

lemma lower_examples:
  "toLowerCase ''0xabc'' = ''0xabc''" "toLowerCase ''0xAb'' = ''0xab''"
  "toLowerCase ''0xAB'' = ''0xab''" "toLowerCase ''0xab'' = ''0xab''"
  "toLowerCase ''0xAbC'' = ''0xabc''" "toLowerCase ''0xaBc'' = ''0xabc''"
  "toLowerCase ''Constructor'' = ''constructor''"
  by code_simp+

lemma lower_prototype_names:
  "toLowerCase ''constructor'' = ''constructor''" "toLowerCase ''__proto__'' = ''__proto__''"
  by code_simp+

text \<open>
  The names of \<^verbatim>\<open>Object.prototype\<close> as wallet and as date: the wallet
  \<^verbatim>\<open>constructor\<close> reads as the inherited member, a check-in for the wallet
  \<^verbatim>\<open>__proto__\<close> throws, and a check-in on the date \<^verbatim>\<open>__proto__\<close> adds the
  date and stores no signature.
\<close>

lemma prototype_name_examples:
  "getUserData Absent ''constructor'' = Inr (Prototype_member ''constructor'')"
  "saveCheckIn e Absent ''__proto__'' d s = Inl TypeError"
  "handleCheckIn e e' (Some ''constructor'') sg Absent = Inl TypeError"
  "dates (addCheckIn e emptyRecord ''__proto__'' s) = [''__proto__'']"
  "signatures (addCheckIn e emptyRecord ''__proto__'' s) = Map.empty"
  by (simp_all add: getUserData_def saveCheckIn_def handleCheckIn_def parse_storage_def
      get_property_def Object_prototype_names_def lower_prototype_names addCheckIn_fields
      assign_string_def emptyRecord_def)

lemma not_prototype_names:
  "''0xabc'' \<notin> set Object_prototype_names" "''0xab'' \<notin> set Object_prototype_names"
  by (simp_all add: Object_prototype_names_def)

lemma save_one_checkin:
  "saveCheckIn (utc_at 86400000) Absent ''0xabc'' ''1970-01-02'' ''0x01'' = Inr one_checkin_storage"
  by (simp add: saveCheckIn_def parse_storage_def Let_def lower_examples get_property_def
      not_prototype_names addCheckIn_def assign_string_def emptyRecord_def
      calculateStreak_single today_day1 one_checkin_storage_def one_checkin_record_def)

text \<open>
  C4, as stated, fails. After the check-in of 1970-01-02 the stored streak is 1, and
  \<open>getUserData\<close> returns that record whenever it is called; nine days later
  \<open>calculateStreak\<close> on the dates of the record is 0.
\<close>

theorem stored_streak_is_stale:
  "saveCheckIn (utc_at 86400000) Absent ''0xabc'' ''1970-01-02'' ''0x01'' = Inr one_checkin_storage
   \<and> getUserData one_checkin_storage ''0xabc'' = Inr (Record one_checkin_record)
   \<and> streak one_checkin_record = 1
   \<and> calculateStreak (utc_at 864000000) (dates one_checkin_record) = 0"
proof -
  have "getUserData one_checkin_storage ''0xabc'' = Inr (Record one_checkin_record)"
    by (simp add: getUserData_def parse_storage_def lower_examples get_property_def
        one_checkin_storage_def)
  moreover have "calculateStreak (utc_at 864000000) (dates one_checkin_record) = 0"
    by (simp add: one_checkin_record_def calculateStreak_single today_day10 yesterday_day10)
  ultimately show ?thesis
    by (simp add: save_one_checkin one_checkin_record_def)
qed

text \<open>
  C4, amended. The streak \<open>getUserData\<close> returns is the stored one: after a
  \<open>saveCheckIn\<close> for the wallet it is \<open>calculateStreak\<close> of the record's dates at the
  clock of that call, a later \<open>saveCheckIn\<close> for another wallet leaves the record as it
  is, and a wallet without a record (its key is neither stored nor a name of
  \<^verbatim>\<open>Object.prototype\<close>) reads as the default record with the streak 0. Nothing
  recomputes it on read.
\<close>

theorem streak_is_the_saved_one:
  "(saveCheckIn e st w d s = Inr st' \<longrightarrow>
      (\<exists>u. getUserData st' w = Inr (Record u) \<and> streak u = calculateStreak e (dates u))
      \<and> (\<forall>v. toLowerCase v \<noteq> toLowerCase w \<longrightarrow> getUserData st' v = getUserData st v))
   \<and> (parse_storage st = Inr (Object allData)
        \<and> get_property allData (toLowerCase w) = Undefined \<longrightarrow>
      getUserData st w = Inr (Record emptyRecord))
   \<and> streak emptyRecord = 0"
proof -
  have "(\<exists>u. getUserData st' w = Inr (Record u) \<and> streak u = calculateStreak e (dates u))
      \<and> (\<forall>v. toLowerCase v \<noteq> toLowerCase w \<longrightarrow> getUserData st' v = getUserData st v)"
    if h: "saveCheckIn e st w d s = Inr st'"
  proof -
    from saveCheckIn_Inr [OF h] obtain a u0 where
      p: "parse_storage st = Inr (Object a)"
      and st': "st' = Json (Object (a(toLowerCase w \<mapsto> addCheckIn e u0 d s)))"
      by blast
    have "getUserData st' w = Inr (Record (addCheckIn e u0 d s))"
      unfolding st' by (rule getUserData_saved)
    moreover have "streak (addCheckIn e u0 d s) = calculateStreak e (dates (addCheckIn e u0 d s))"
      by (rule addCheckIn_fields)
    moreover have "getUserData st' v = getUserData st v"
      if "toLowerCase v \<noteq> toLowerCase w" for v
      unfolding st' using p that by (rule getUserData_other)
    ultimately show ?thesis by blast
  qed
  moreover have "getUserData st w = Inr (Record emptyRecord)"
    if "parse_storage st = Inr (Object allData)"
      "get_property allData (toLowerCase w) = Undefined"
    using that by (simp add: getUserData_parsed)
  ultimately show ?thesis
    by (simp add: emptyRecord_def)
qed

theorem streak_is_the_saved_one_witness:
  "saveCheckIn (utc_at 86400000) Absent ''0xabc'' ''1970-01-02'' ''0x01'' = Inr one_checkin_storage
   \<and> (\<exists>u. getUserData one_checkin_storage ''0xabc'' = Inr (Record u)
         \<and> streak u = calculateStreak (utc_at 86400000) (dates u))"
  using streak_is_the_saved_one [of "utc_at 86400000" Absent "''0xabc''" "''1970-01-02''" "''0x01''"
      one_checkin_storage] save_one_checkin
  by blast

subsection \<open>A second check-in on the same day\<close>

text \<open>
  C3. When a check-in of a wallet has been saved, a second \<open>handleCheckIn\<close> for the same
  wallet on the same date (the clock still shows the date of the first one) is rejected
  with the already-checked-in alert, whatever the signing would have given, and the
  storage after it is the storage before it: the record, its total and its dates are
  unchanged.
\<close>

theorem second_checkin_rejected:
  assumes "handleCheckIn e1 e1' (Some w) sg1 st = Inr (Saved, st1)"
      and "getTodayString e2 = getTodayString e1"
  shows "handleCheckIn e2 e2' (Some w) sg2 st1 = Inr (Alert_already, st1)"
proof -
  from handleCheckIn_Saved [OF assms(1)] obtain s where w: "w \<noteq> []"
    and s: "saveCheckIn e1' st w (getTodayString e1) s = Inr st1"
    by auto
  from saveCheckIn_Inr [OF s] obtain a u0 where
    st1: "st1 = Json (Object (a(toLowerCase w \<mapsto> addCheckIn e1' u0 (getTodayString e1) s)))"
    by blast
  have "getUserData st1 w = Inr (Record (addCheckIn e1' u0 (getTodayString e1) s))"
    unfolding st1 by (rule getUserData_saved)
  moreover have "getTodayString e1 \<in> set (dates (addCheckIn e1' u0 (getTodayString e1) s))"
    by (rule addCheckIn_date)
  ultimately show ?thesis
    using w assms(2) by (simp add: handleCheckIn_def Let_def)
qed

theorem second_checkin_rejected_witness:
  "\<exists>st1. handleCheckIn (utc_at 0) (utc_at 5) (Some ''0xAb'') (Signed ''0x01'') Absent
            = Inr (Saved, st1)
     \<and> handleCheckIn (utc_at 7) (utc_at 9) (Some ''0xAb'') (Signed ''0x02'') st1
            = Inr (Alert_already, st1)"
proof -
  have t: "getTodayString (utc_at 7) = getTodayString (utc_at 0)"
    by (simp add: getTodayString_def utc_at_def) code_simp
  obtain st1 where h: "handleCheckIn (utc_at 0) (utc_at 5) (Some ''0xAb'') (Signed ''0x01'') Absent
            = Inr (Saved, st1)"
    by (simp add: handleCheckIn_def getUserData_def parse_storage_def emptyRecord_def
        saveCheckIn_def Let_def lower_examples get_property_def not_prototype_names)
  from second_checkin_rejected [OF h t] h show ?thesis by blast
qed

subsection \<open>Malformed storage\<close>

text \<open>
  C5, as stated, fails: on a stored text that is not JSON, \<open>getUserData\<close> does not
  return the empty record; the SyntaxError of \<^verbatim>\<open>JSON.parse\<close> leaves the function.
\<close>

theorem getUserData_malformed_throws:
  "getUserData Malformed ''0xabc'' = Inl SyntaxError
   \<and> getUserData Malformed ''0xabc'' \<noteq> Inr (Record emptyRecord)"
  by (simp add: getUserData_def parse_storage_def)

text \<open>
  C5, amended. For a wallet whose lowercase form is no name of a member of
  \<^verbatim>\<open>Object.prototype\<close>, \<open>getUserData\<close> returns the default empty record (no dates,
  streak 0, total 0, no signatures) when nothing is stored, when the stored text is empty,
  and when the stored object has no entry for the lowercased wallet. For a wallet whose
  lowercase form is such a name (\<^verbatim>\<open>constructor\<close>, \<^verbatim>\<open>__proto__\<close>) and not a key
  of the stored object, it returns the inherited member and no record. Nothing catches a
  failure of \<^verbatim>\<open>JSON.parse\<close>: on a text that is not JSON the call throws a
  SyntaxError, and on the text \<^verbatim>\<open>null\<close> the property access throws a TypeError.
\<close>

theorem getUserData_default_or_throws:
  "(toLowerCase w \<notin> set Object_prototype_names \<longrightarrow>
      getUserData Absent w = Inr (Record emptyRecord)
      \<and> getUserData Empty w = Inr (Record emptyRecord)
      \<and> (allData (toLowerCase w) = None \<longrightarrow>
           getUserData (Json (Object allData)) w = Inr (Record emptyRecord)))
   \<and> (toLowerCase w \<in> set Object_prototype_names \<longrightarrow>
      getUserData Absent w = Inr (Prototype_member (toLowerCase w))
      \<and> getUserData Empty w = Inr (Prototype_member (toLowerCase w))
      \<and> (allData (toLowerCase w) = None \<longrightarrow>
           getUserData (Json (Object allData)) w = Inr (Prototype_member (toLowerCase w))))
   \<and> dates emptyRecord = [] \<and> streak emptyRecord = 0 \<and> total' emptyRecord = 0
   \<and> signatures emptyRecord = Map.empty
   \<and> getUserData Malformed w = Inl SyntaxError
   \<and> getUserData (Json Null) w = Inl TypeError"
  by (simp add: getUserData_def parse_storage_def get_property_def emptyRecord_def)

theorem getUserData_default_or_throws_witness:
  "toLowerCase ''0xAb'' \<notin> set Object_prototype_names
   \<and> getUserData Absent ''0xAb'' = Inr (Record emptyRecord)
   \<and> getUserData (Json (Object Map.empty)) ''0xAb'' = Inr (Record emptyRecord)
   \<and> toLowerCase ''Constructor'' \<in> set Object_prototype_names
   \<and> getUserData Absent ''Constructor'' = Inr (Prototype_member ''constructor'')
   \<and> getUserData Malformed ''0xAb'' = Inl SyntaxError"
proof -
  have a: "toLowerCase ''0xAb'' \<notin> set Object_prototype_names"
    by (simp add: lower_examples not_prototype_names)
  have b: "toLowerCase ''Constructor'' \<in> set Object_prototype_names"
    by (simp add: lower_examples Object_prototype_names_def)
  from getUserData_default_or_throws [of "''0xAb''" Map.empty]
    getUserData_default_or_throws [of "''Constructor''" Map.empty] a b
  show ?thesis
    by (simp add: lower_examples)
qed

subsection \<open>The record invariant\<close>

text \<open>
  C6. Starting from an empty storage, after any run of check-ins the record
  \<open>getUserData\<close> returns for a wallet satisfies the invariant: its total is the number of
  its dates, its dates are distinct and sorted ascending, and the dates with a signature
  are exactly its dates. This holds after every run of \<open>handleCheckIn\<close> calls, whose
  dates are dates of the clock, and after every run of \<open>saveCheckIn\<close> calls none of
  whose dates is the string \<^verbatim>\<open>__proto__\<close> (a calendar date never is). In both cases
  \<open>getUserData\<close> does not throw, and it returns a record for every wallet whose lowercase
  form is no name of a member of \<^verbatim>\<open>Object.prototype\<close>.
\<close>

theorem commits_keep_record_inv:
  "(\<exists>v. getUserData (checkins hs Absent) w = Inr v
       \<and> (\<forall>u. v = Record u \<longrightarrow> record_inv u)
       \<and> (toLowerCase w \<notin> set Object_prototype_names \<longrightarrow> (\<exists>u. v = Record u)))
   \<and> ((\<forall>(e, w', d, s)\<in>set cs. d \<noteq> ''__proto__'') \<longrightarrow>
       (\<exists>v. getUserData (commits cs Absent) w = Inr v
          \<and> (\<forall>u. v = Record u \<longrightarrow> record_inv u)
          \<and> (toLowerCase w \<notin> set Object_prototype_names \<longrightarrow> (\<exists>u. v = Record u))))"
proof -
  have "storage_inv (checkins hs Absent)"
    using storage_inv_Absent by (rule checkins_storage_inv)
  then have a: "\<exists>v. getUserData (checkins hs Absent) w = Inr v
       \<and> (\<forall>u. v = Record u \<longrightarrow> record_inv u)
       \<and> (toLowerCase w \<notin> set Object_prototype_names \<longrightarrow> (\<exists>u. v = Record u))"
    by (rule storage_inv_read)
  have "\<exists>v. getUserData (commits cs Absent) w = Inr v
          \<and> (\<forall>u. v = Record u \<longrightarrow> record_inv u)
          \<and> (toLowerCase w \<notin> set Object_prototype_names \<longrightarrow> (\<exists>u. v = Record u))"
    if "\<forall>(e, w', d, s)\<in>set cs. d \<noteq> ''__proto__''"
  proof -
    from storage_inv_Absent that have "storage_inv (commits cs Absent)"
      by (rule commits_storage_inv)
    then show ?thesis
      by (rule storage_inv_read)
  qed
  with a show ?thesis by blast
qed

theorem commits_keep_record_inv_witness:
  "''1970-01-02'' \<noteq> ''__proto__'' \<and> ''1970-01-01'' \<noteq> ''__proto__''
   \<and> toLowerCase ''0xab'' \<notin> set Object_prototype_names
   \<and> (\<exists>u. getUserData (checkins [(utc_at 0, utc_at 5, Some ''0xAb'', Signed ''0x01'')] Absent)
             ''0xab'' = Inr (Record u) \<and> record_inv u)
   \<and> (\<exists>u. getUserData (commits [(utc_at 0, ''0xAb'', ''1970-01-02'', ''0x01''),
                                 (utc_at 0, ''0xAB'', ''1970-01-01'', ''0x02'')] Absent)
             ''0xab'' = Inr (Record u) \<and> record_inv u)"
proof -
  have n: "toLowerCase ''0xab'' \<notin> set Object_prototype_names"
    by (simp add: lower_examples not_prototype_names)
  have d: "\<forall>(e, w', d, s)\<in>set [(utc_at 0, ''0xAb'', ''1970-01-02'', ''0x01''),
      (utc_at 0, ''0xAB'', ''1970-01-01'', ''0x02'')]. d \<noteq> ''__proto__''"
    by simp
  from commits_keep_record_inv
    [of "[(utc_at 0, utc_at 5, Some ''0xAb'', Signed ''0x01'')]" "''0xab''"
      "[(utc_at 0, ''0xAb'', ''1970-01-02'', ''0x01''), (utc_at 0, ''0xAB'', ''1970-01-01'', ''0x02'')]"]
    n d
  show ?thesis by blast
qed

subsection \<open>Reading back a check-in\<close>

text \<open>
  C7. After \<open>handleCheckIn\<close> has saved a check-in for a wallet, \<open>getUserData\<close> of that
  wallet returns a record that has the date of the check-in (the date of the clock when
  the handler started) among its dates and the signature stored for it. After
  \<open>saveCheckIn\<close> for a wallet, a date and a signature has succeeded, \<open>getUserData\<close> of
  that wallet returns a record that has the date among its dates, and the signature
  stored for it when the date is not the string \<^verbatim>\<open>__proto__\<close> (a calendar date
  never is).
\<close>

theorem commit_then_read:
  "(handleCheckIn e0 e (Some w) (Signed s) st = Inr (Saved, st') \<longrightarrow>
      (\<exists>u. getUserData st' w = Inr (Record u) \<and> signatures u (getTodayString e0) = Some s
           \<and> getTodayString e0 \<in> set (dates u)))
   \<and> (saveCheckIn e st w d s = Inr st' \<longrightarrow>
      (\<exists>u. getUserData st' w = Inr (Record u) \<and> d \<in> set (dates u)
           \<and> (d \<noteq> ''__proto__'' \<longrightarrow> signatures u d = Some s)))"
proof -
  have save: "\<exists>u. getUserData st2 w = Inr (Record u) \<and> d2 \<in> set (dates u)
      \<and> (d2 \<noteq> ''__proto__'' \<longrightarrow> signatures u d2 = Some s)"
    if h: "saveCheckIn e st w d2 s = Inr st2" for d2 st2
  proof -
    from saveCheckIn_Inr [OF h] obtain a u0 where
      st2: "st2 = Json (Object (a(toLowerCase w \<mapsto> addCheckIn e u0 d2 s)))"
      by blast
    have "getUserData st2 w = Inr (Record (addCheckIn e u0 d2 s))"
      unfolding st2 by (rule getUserData_saved)
    then show ?thesis
      using addCheckIn_date [of d2 e u0 s] addCheckIn_signature [of d2 e u0 s] by blast
  qed
  have "\<exists>u. getUserData st' w = Inr (Record u) \<and> signatures u (getTodayString e0) = Some s
           \<and> getTodayString e0 \<in> set (dates u)"
    if h: "handleCheckIn e0 e (Some w) (Signed s) st = Inr (Saved, st')"
  proof -
    from handleCheckIn_Saved [OF h]
    have "saveCheckIn e st w (getTodayString e0) s = Inr st'"
      by auto
    from save [OF this] getTodayString_not_proto [of e0] show ?thesis
      by blast
  qed
  with save show ?thesis by blast
qed

theorem commit_then_read_witness:
  "\<exists>st'. saveCheckIn (utc_at 0) Absent ''0xAb'' ''1970-01-01'' ''0x01'' = Inr st'
     \<and> handleCheckIn (utc_at 0) (utc_at 0) (Some ''0xAb'') (Signed ''0x01'') Absent
         = Inr (Saved, st')
     \<and> ''1970-01-01'' \<noteq> ''__proto__''
     \<and> (\<exists>u. getUserData st' ''0xAb'' = Inr (Record u)
           \<and> signatures u ''1970-01-01'' = Some ''0x01''
           \<and> ''1970-01-01'' \<in> set (dates u))"
proof -
  have t: "getTodayString (utc_at 0) = ''1970-01-01''"
    by (simp add: getTodayString_def utc_at_def) code_simp
  obtain st' where s: "saveCheckIn (utc_at 0) Absent ''0xAb'' ''1970-01-01'' ''0x01'' = Inr st'"
    by (simp add: saveCheckIn_def parse_storage_def Let_def lower_examples get_property_def
        not_prototype_names)
  then have h: "handleCheckIn (utc_at 0) (utc_at 0) (Some ''0xAb'') (Signed ''0x01'') Absent
         = Inr (Saved, st')"
    by (simp add: handleCheckIn_def t getUserData_def parse_storage_def emptyRecord_def
        lower_examples get_property_def not_prototype_names)
  have n: "''1970-01-01'' \<noteq> ''__proto__''"
    by simp
  from commit_then_read [of "utc_at 0" "utc_at 0" "''0xAb''" "''0x01''" Absent st' "''1970-01-01''"]
    s h n show ?thesis by blast
qed

subsection \<open>Wallet addresses in different letter case\<close>

text \<open>
  C8. For two wallet address strings that differ only in letter case, \<open>getUserData\<close>
  returns the same value and \<open>saveCheckIn\<close> writes the same storage. A check-in saved
  under one of them, by \<open>saveCheckIn\<close> or by \<open>handleCheckIn\<close>, is read back under the
  other: the record read has the date among its dates, and the signature stored for it
  when the date is not the string \<^verbatim>\<open>__proto__\<close> (a date of the clock never is).
\<close>

theorem wallet_lookup_ignores_case:
  assumes "differ_only_in_case v w"
  shows "getUserData st v = getUserData st w
         \<and> saveCheckIn e st v d s = saveCheckIn e st w d s
         \<and> (saveCheckIn e st v d s = Inr st' \<longrightarrow>
              (\<exists>u. getUserData st' w = Inr (Record u) \<and> d \<in> set (dates u)
                   \<and> (d \<noteq> ''__proto__'' \<longrightarrow> signatures u d = Some s)))
         \<and> (handleCheckIn e0 e (Some v) (Signed s) st = Inr (Saved, st') \<longrightarrow>
              (\<exists>u. getUserData st' w = Inr (Record u) \<and> getTodayString e0 \<in> set (dates u)
                   \<and> signatures u (getTodayString e0) = Some s))"
proof -
  from assms have l: "toLowerCase v = toLowerCase w"
    by (rule differ_lower)
  have g: "getUserData st2 v = getUserData st2 w" for st2
    unfolding getUserData_def l ..
  have sv: "saveCheckIn e st v d2 s = saveCheckIn e st w d2 s" for d2
    unfolding saveCheckIn_def l ..
  have save: "\<exists>u. getUserData st' w = Inr (Record u) \<and> d2 \<in> set (dates u)
      \<and> (d2 \<noteq> ''__proto__'' \<longrightarrow> signatures u d2 = Some s)"
    if h: "saveCheckIn e st v d2 s = Inr st'" for d2
  proof -
    from saveCheckIn_Inr [OF h] obtain a u0 where
      st': "st' = Json (Object (a(toLowerCase v \<mapsto> addCheckIn e u0 d2 s)))"
      by blast
    have "getUserData st' v = Inr (Record (addCheckIn e u0 d2 s))"
      unfolding st' by (rule getUserData_saved)
    then have "getUserData st' w = Inr (Record (addCheckIn e u0 d2 s))"
      by (simp add: g)
    then show ?thesis
      using addCheckIn_date [of d2 e u0 s] addCheckIn_signature [of d2 e u0 s] by blast
  qed
  have "\<exists>u. getUserData st' w = Inr (Record u) \<and> getTodayString e0 \<in> set (dates u)
      \<and> signatures u (getTodayString e0) = Some s"
    if h: "handleCheckIn e0 e (Some v) (Signed s) st = Inr (Saved, st')"
  proof -
    from handleCheckIn_Saved [OF h]
    have "saveCheckIn e st v (getTodayString e0) s = Inr st'"
      by auto
    from save [OF this] getTodayString_not_proto [of e0] show ?thesis
      by blast
  qed
  with g sv save show ?thesis by blast
qed

theorem wallet_lookup_ignores_case_witness:
  "differ_only_in_case ''0xAbC'' ''0xaBc''
   \<and> ''1970-01-01'' \<noteq> ''__proto__''
   \<and> (\<exists>st'. saveCheckIn (utc_at 0) Absent ''0xAbC'' ''1970-01-01'' ''0x01'' = Inr st'
        \<and> getUserData st' ''0xAbC'' = getUserData st' ''0xaBc''
        \<and> (\<exists>u. getUserData st' ''0xaBc'' = Inr (Record u) \<and> ''1970-01-01'' \<in> set (dates u)
              \<and> signatures u ''1970-01-01'' = Some ''0x01''))"
proof -
  have d: "differ_only_in_case ''0xAbC'' ''0xaBc''"
    by code_simp
  have n: "''1970-01-01'' \<noteq> ''__proto__''"
    by simp
  obtain st' where s: "saveCheckIn (utc_at 0) Absent ''0xAbC'' ''1970-01-01'' ''0x01'' = Inr st'"
    by (simp add: saveCheckIn_def parse_storage_def Let_def lower_examples get_property_def
        not_prototype_names)
  from wallet_lookup_ignores_case
      [OF d, where e = "utc_at 0" and st = Absent and d = "''1970-01-01''" and s = "''0x01''"
        and st' = st']
    wallet_lookup_ignores_case [OF d, where st = st']
    d n s show ?thesis by blast
qed

subsection \<open>Provider resolution\<close>

text \<open>
  C9. Outside a frame \<open>getProvider\<close> returns the injected wallet when there is one and
  otherwise fails with the install-a-wallet error. Inside a frame it returns the
  provider of the host's SDK when the SDK has one; \<open>getFarcasterProvider\<close> finds none
  when loading the SDK failed or gave nothing, or the SDK has no wallet or the wallet no
  provider, and then \<open>getProvider\<close> returns the injected wallet when there is one and
  otherwise fails with the no-wallet-found error.
\<close>

theorem getProvider_resolution:
  "getProvider False (Some p) loaded = Inr p
   \<and> getProvider False None loaded = Inl (Error ''Please install MetaMask or Rabby wallet.'')
   \<and> getProvider True ethereum (Inr (Some \<lparr>wallet = Some \<lparr>ethProvider = Some b\<rparr>\<rparr>)) = Inr b
   \<and> getFarcasterProvider True (Inl x :: js_exn + 'p frame_sdk option) = None
   \<and> getFarcasterProvider True (Inr None :: js_exn + 'p frame_sdk option) = None
   \<and> getFarcasterProvider True (Inr (Some \<lparr>wallet = None\<rparr>) :: js_exn + 'p frame_sdk option) = None
   \<and> getFarcasterProvider True (Inr (Some \<lparr>wallet = Some \<lparr>ethProvider = None :: 'p option\<rparr>\<rparr>))
       = None
   \<and> (getFarcasterProvider True loaded = None \<longrightarrow>
        getProvider True (Some p) loaded = Inr p
        \<and> getProvider True None loaded
            = Inl (Error ''No wallet found. Please try again in Warpcast.''))"
  by (simp add: getProvider_def getFarcasterProvider_def)

theorem getProvider_resolution_witness:
  "getFarcasterProvider True (Inr None :: js_exn + nat frame_sdk option) = None
   \<and> getProvider True (Some (7 :: nat)) (Inr None) = Inr 7
   \<and> getProvider True (None :: nat option) (Inr None)
       = Inl (Error ''No wallet found. Please try again in Warpcast.'')"
proof -
  have h: "getFarcasterProvider True (Inr None :: js_exn + nat frame_sdk option) = None"
    by (simp add: getFarcasterProvider_def)
  from getProvider_resolution [where loaded = "Inr None :: js_exn + nat frame_sdk option"
      and p = 7 and ethereum = None and b = 0] h
  show ?thesis by blast
qed

subsection \<open>Environment classification\<close>

text \<open>
  C10. When the inspection of the top-level browsing context throws,
  \<open>detectFarcasterFrame\<close> answers that the page is embedded, whatever the query
  parameters are; so does \<open>detectMiniApp\<close> when no SDK is loaded, when the SDK has no
  embedding query, and when the query gives no answer.
\<close>

theorem cross_origin_failure_is_embedded:
  "detectFarcasterFrame (Inl x) params
   \<and> detectMiniApp None (Inl x)
   \<and> detectMiniApp (Some \<lparr>isInMiniApp = None\<rparr>) (Inl x)
   \<and> detectMiniApp (Some \<lparr>isInMiniApp = Some No_answer\<rparr>) (Inl x)
   \<and> detectMiniApp (Some \<lparr>isInMiniApp = Some Rejects\<rparr>) (Inl x)"
  by (simp add: detectFarcasterFrame_def detectMiniApp_def)

end
